theory Spec2Isabelle
  imports Main
begin

section \<open>The parsed document\<close>

text \<open>
  The scraper of \<^verbatim>\<open>a3.py\<close> works on the tree that BeautifulSoup builds from the page
  source. A node of that tree is a string or a tag with a name, the values of its
  \<^verbatim>\<open>class\<close> attribute and its children; the document itself is the tag at the root.
  Comments and the other attributes play no part in what the scraper reads and are left
  out. Strings are Python \<^verbatim>\<open>str\<close> values; here a character is a code point below 256.
\<close>

datatype node = Text string | Element string "string list" "node list"

text \<open>
  \<^verbatim>\<open>tag.text\<close>: the strings below a tag, concatenated in document order. The parser
  gives a string inside a \<^verbatim>\<open>script\<close>, \<^verbatim>\<open>style\<close>, \<^verbatim>\<open>template\<close>, \<^verbatim>\<open>rt\<close> or \<^verbatim>\<open>rp\<close> tag a
  class of its own, that of the innermost such tag around it, and \<^verbatim>\<open>.text\<close> keeps the
  strings of the class that belongs to the tag it is taken of: the text of a \<^verbatim>\<open>div\<close> leaves
  out what stands inside a \<^verbatim>\<open>script\<close> below it. \<open>container_of n cur\<close> is the class of the
  strings directly inside a tag named \<open>n\<close> that stands where strings have the class
  \<open>cur\<close>; the empty name is the class of ordinary strings.
\<close>

definition string_containers :: "string list" where
  "string_containers = [''rt'', ''rp'', ''style'', ''script'', ''template'']"

definition container_of :: "string \<Rightarrow> string \<Rightarrow> string" where
  "container_of n cur = (if n \<in> set string_containers then n else cur)"

fun all_strings :: "string \<Rightarrow> string \<Rightarrow> node \<Rightarrow> string" where
  "all_strings want cur (Text s) = (if cur = want then s else [])"
| "all_strings want cur (Element n cs ch) =
     concat (map (all_strings want (container_of n cur)) ch)"

fun text_of :: "node \<Rightarrow> string" where
  "text_of (Text s) = s"
| "text_of (Element n cs ch) =
     concat (map (all_strings (container_of n []) (container_of n [])) ch)"

text \<open>\<^verbatim>\<open>tag.descendants\<close>: every node below a tag, in document order (pre-order).\<close>

fun descendants :: "node \<Rightarrow> node list" where
  "descendants (Text s) = []"
| "descendants (Element n cs ch) = concat (map (\<lambda>c. c # descendants c) ch)"

text \<open>
  A \<^verbatim>\<open>class_\<close> filter matches a tag when one of its class values is the wanted string,
  or when its class values joined by single spaces are the wanted string.
\<close>

fun join :: "string \<Rightarrow> string list \<Rightarrow> string" where
  "join sep [] = []"
| "join sep [x] = x"
| "join sep (x # y # ys) = x @ sep @ join sep (y # ys)"

definition class_matches :: "string \<Rightarrow> string list \<Rightarrow> bool" where
  "class_matches c cs = (c \<in> set cs \<or> join '' '' cs = c)"

text \<open>
  \<^verbatim>\<open>find_all(names, class_=c)\<close> keeps the descendant tags whose name is one of
  \<open>names\<close> and whose classes match \<open>c\<close> (no class filter when \<open>c\<close> is \<open>None\<close>);
  \<^verbatim>\<open>find\<close> is its first result.
\<close>

fun matches :: "string list \<Rightarrow> string option \<Rightarrow> node \<Rightarrow> bool" where
  "matches names c (Text s) = False"
| "matches names c (Element n cs ch) =
     (n \<in> set names \<and> (case c of None \<Rightarrow> True | Some k \<Rightarrow> class_matches k cs))"

definition find_all :: "string list \<Rightarrow> string option \<Rightarrow> node \<Rightarrow> node list" where
  "find_all names c t = filter (matches names c) (descendants t)"

definition find_tag :: "string list \<Rightarrow> string option \<Rightarrow> node \<Rightarrow> node option" where
  "find_tag names c t = (case find_all names c t of [] \<Rightarrow> None | x # xs \<Rightarrow> Some x)"

section \<open>Strings\<close>

text \<open>\<^verbatim>\<open>str.isspace\<close> on the code points below 256, and \<^verbatim>\<open>str.strip()\<close>.\<close>

definition isspace :: "char \<Rightarrow> bool" where
  "isspace c = ((of_char c :: nat) \<in> set [9, 10, 11, 12, 13, 28, 29, 30, 31, 32, 133, 160])"

definition strip :: "string \<Rightarrow> string" where
  "strip s = rev (dropWhile isspace (rev (dropWhile isspace s)))"

section \<open>The statement text\<close>

text \<open>
  \<^verbatim>\<open>extract_problem_statement\<close>: the first loop appends one delimited fragment for each
  \<^verbatim>\<open>span.math\<close>, the second loop the stripped text of each \<^verbatim>\<open>p\<close> or \<^verbatim>\<open>div\<close> that has no
  \<^verbatim>\<open>span.math\<close> below it; the empty fragments are filtered out and the rest joined by
  newlines.
\<close>

fun latex_loop :: "node list \<Rightarrow> string list \<Rightarrow> string list" where
  "latex_loop [] problem_text = problem_text"
| "latex_loop (latex # rest) problem_text =
     latex_loop rest (problem_text @ [''$$ '' @ strip (text_of latex) @ '' $$''])"

fun paragraph_loop :: "node list \<Rightarrow> string list \<Rightarrow> string list" where
  "paragraph_loop [] problem_text = problem_text"
| "paragraph_loop (paragraph # rest) problem_text =
     (if find_tag [''span''] (Some ''math'') paragraph = None
      then paragraph_loop rest (problem_text @ [strip (text_of paragraph)])
      else paragraph_loop rest problem_text)"

definition statement_fragments :: "node \<Rightarrow> string list" where
  "statement_fragments problem_statement_div =
     paragraph_loop (find_all [''p'', ''div''] None problem_statement_div)
       (latex_loop (find_all [''span''] (Some ''math'') problem_statement_div) [])"

definition extract_problem_statement :: "node \<Rightarrow> string" where
  "extract_problem_statement problem_statement_div =
     join [CHR 0x0A] (filter (\<lambda>s. s \<noteq> []) (statement_fragments problem_statement_div))"

section \<open>Sample tests and tags\<close>

text \<open>
  The record \<^verbatim>\<open>data\<close> is a Python dict: its keys keep their insertion order, and an
  assignment to a key that is present replaces the value in place.
\<close>

datatype pyval = PStr string | PList "pyval list" | PDict "(string \<times> pyval) list"

type_synonym pydict = "(string \<times> pyval) list"

fun dict_set :: "string \<Rightarrow> pyval \<Rightarrow> pydict \<Rightarrow> pydict" where
  "dict_set k v [] = [(k, v)]"
| "dict_set k v ((k', v') # d) = (if k' = k then (k', v) # d else (k', v') # dict_set k v d)"

text \<open>
  The loop over the \<^verbatim>\<open>div.sample-test\<close> elements: a pair is appended when the first
  \<^verbatim>\<open>div.input\<close> and the first \<^verbatim>\<open>div.output\<close> below the element both exist and each
  has a \<^verbatim>\<open>pre\<close> below it.
\<close>

fun sample_loop :: "node list \<Rightarrow> pyval list \<Rightarrow> pyval list" where
  "sample_loop [] samples = samples"
| "sample_loop (test # rest) samples =
     (case find_tag [''div''] (Some ''input'') test of
        None \<Rightarrow> sample_loop rest samples
      | Some input_div \<Rightarrow>
         (case find_tag [''div''] (Some ''output'') test of
            None \<Rightarrow> sample_loop rest samples
          | Some output_div \<Rightarrow>
             (case find_tag [''pre''] None input_div of
                None \<Rightarrow> sample_loop rest samples
              | Some input_pre \<Rightarrow>
                 (case find_tag [''pre''] None output_div of
                    None \<Rightarrow> sample_loop rest samples
                  | Some output_pre \<Rightarrow>
                      sample_loop rest
                        (samples @ [PDict [(''input'', PStr (strip (text_of input_pre))),
                                           (''output'', PStr (strip (text_of output_pre)))]])))))"

text \<open>
  The loop over the tag boxes: for each \<^verbatim>\<open>div\<close> with the compound class, the stripped
  text of the first \<^verbatim>\<open>span.tag-box\<close> below it, when there is one.
\<close>

fun tag_loop :: "node list \<Rightarrow> pyval list \<Rightarrow> pyval list" where
  "tag_loop [] tags = tags"
| "tag_loop (tag_div # rest) tags =
     (case find_tag [''span''] (Some ''tag-box'') tag_div of
        Some span \<Rightarrow> tag_loop rest (tags @ [PStr (strip (text_of span))])
      | None \<Rightarrow> tag_loop rest tags)"

definition collect_tags :: "node \<Rightarrow> pyval list" where
  "collect_tags soup =
     (let tag_divs = find_all [''div''] (Some ''roundbox borderTopRound borderBottomRound'') soup
      in if tag_divs \<noteq> [] then tag_loop tag_divs [] else [])"

section \<open>File names\<close>

text \<open>
  \<^verbatim>\<open>str.replace(old, new)\<close> replaces the occurrences of \<open>old\<close> from left to right,
  without overlap; with an empty \<open>old\<close> it puts \<open>new\<close> before every character and at
  the end.
\<close>

function str_replace :: "string \<Rightarrow> string \<Rightarrow> string \<Rightarrow> string" where
  "str_replace old new s =
     (if old = [] then new @ concat (map (\<lambda>c. c # new) s)
      else if s = [] then []
      else if take (length old) s = old then new @ str_replace old new (drop (length old) s)
      else hd s # str_replace old new (tl s))"
  by pat_completeness auto
termination
  by (relation "measure (\<lambda>(old, new, s). length s)") auto

text \<open>\<^verbatim>\<open>os.path.join\<close> of two components, with the separator \<^verbatim>\<open>/\<close>.\<close>

definition path_join :: "string \<Rightarrow> string \<Rightarrow> string" where
  "path_join a b =
     (if take 1 b = ''/'' then b
      else if a = [] \<or> last a = CHR ''/'' then a @ b
      else a @ ''/'' @ b)"

definition data_dir :: string where
  "data_dir = ''scraped_data''"

definition base_url :: string where
  "base_url = ''https://codeforces.com''"

definition text_file_path :: "string \<Rightarrow> string" where
  "text_file_path problem_id =
     path_join data_dir (''problem_'' @ str_replace ''/'' ''_'' problem_id @ ''.txt'')"

definition output_file :: "string \<Rightarrow> string" where
  "output_file problem_id =
     path_join data_dir (''problem_'' @ str_replace ''/'' ''_'' problem_id @ ''.json'')"

section \<open>The JSON text\<close>

text \<open>
  \<^verbatim>\<open>json.dump(data, f, indent=2, ensure_ascii=False)\<close>: a string is quoted, with the
  quote, the backslash and the control characters escaped and every other character
  written as it is; a non-empty list or dict puts each item on a line of its own, two
  spaces deeper than the enclosing one.
\<close>

definition hex_digit :: "nat \<Rightarrow> char" where
  "hex_digit n = ''0123456789abcdef'' ! (n mod 16)"

definition escape_char :: "char \<Rightarrow> string" where
  "escape_char c =
     (if c = CHR 0x22 then [CHR 0x5C, CHR 0x22]
      else if c = CHR 0x5C then [CHR 0x5C, CHR 0x5C]
      else if c = CHR 0x0A then [CHR 0x5C, CHR ''n'']
      else if c = CHR 0x0D then [CHR 0x5C, CHR ''r'']
      else if c = CHR 0x09 then [CHR 0x5C, CHR ''t'']
      else if c = CHR 0x08 then [CHR 0x5C, CHR ''b'']
      else if c = CHR 0x0C then [CHR 0x5C, CHR ''f'']
      else if (of_char c :: nat) < 32
        then [CHR 0x5C, CHR ''u'', CHR ''0'', CHR ''0'',
              hex_digit (of_char c div 16), hex_digit (of_char c mod 16)]
      else [c])"

definition encode_basestring :: "string \<Rightarrow> string" where
  "encode_basestring s = [CHR 0x22] @ concat (map escape_char s) @ [CHR 0x22]"

definition newline_indent :: "nat \<Rightarrow> string" where
  "newline_indent level = CHR 0x0A # replicate (2 * level) CHR '' ''"

fun iterencode :: "nat \<Rightarrow> pyval \<Rightarrow> string" where
  "iterencode level (PStr s) = encode_basestring s"
| "iterencode level (PList xs) =
     (if xs = [] then ''[]''
      else ''['' @ newline_indent (Suc level)
           @ join ('','' @ newline_indent (Suc level)) (map (iterencode (Suc level)) xs)
           @ newline_indent level @ '']'')"
| "iterencode level (PDict kvs) =
     (if kvs = [] then ''{}''
      else ''{'' @ newline_indent (Suc level)
           @ join ('','' @ newline_indent (Suc level))
               (map (\<lambda>kv. encode_basestring (fst kv) @ '': '' @ iterencode (Suc level) (snd kv)) kvs)
           @ newline_indent level @ ''}'')"

definition json_dumps :: "pydict \<Rightarrow> string" where
  "json_dumps data = iterencode 0 (PDict data)"

text \<open>\<^verbatim>\<open>str(n)\<close> of a natural number: its decimal digits.\<close>

fun str_nat :: "nat \<Rightarrow> string" where
  "str_nat n =
     (if n < 10 then [char_of (48 + n)] else str_nat (n div 10) @ [char_of (48 + n mod 10)])"

section \<open>One extraction attempt\<close>

text \<open>
  What the program touches outside itself is written out. The \<open>world\<close> is what it
  changes: the files of the output directory, the lines printed to the console and the
  number of browser sessions that are open. The \<open>browser\<close> is what it is answered: for
  each call into Selenium or the file system, whether the call raises and what it returns.
  \<open>marker_appears\<close> is the number of seconds after which an element of class
  \<^verbatim>\<open>problem-statement\<close> is present in the live page, \<open>None\<close> when it never is.
  \<open>page_source\<close> is the snapshot as BeautifulSoup parses it. A call into the browser may
  be answered with any exception, an interrupt included; \<open>open_w\<close> answers the opening of
  a file for writing, which fails with an \<^verbatim>\<open>OSError\<close> and its message.
\<close>

datatype exn =
    WebDriverException string
  | TimeoutException
  | OSError string
  | Exception string
  | KeyboardInterrupt
  | SystemExit

fun str_exn :: "exn \<Rightarrow> string" where
  "str_exn (WebDriverException m) = m"
| "str_exn TimeoutException = ''Message: '' @ [CHR 0x0A]"
| "str_exn (OSError m) = m"
| "str_exn (Exception m) = m"
| "str_exn KeyboardInterrupt = []"
| "str_exn SystemExit = []"

text \<open>
  \<^verbatim>\<open>isinstance(e, Exception)\<close>: \<^verbatim>\<open>KeyboardInterrupt\<close> and \<^verbatim>\<open>SystemExit\<close> derive from
  \<^verbatim>\<open>BaseException\<close> only, so the clause \<^verbatim>\<open>except Exception\<close> of line 127 lets them pass.
\<close>

fun is_Exception :: "exn \<Rightarrow> bool" where
  "is_Exception (WebDriverException m) = True"
| "is_Exception TimeoutException = True"
| "is_Exception (OSError m) = True"
| "is_Exception (Exception m) = True"
| "is_Exception KeyboardInterrupt = False"
| "is_Exception SystemExit = False"

record world =
  files :: "string \<rightharpoonup> string"
  console :: "string list"
  sessions :: nat

record browser =
  setup_driver :: "exn option"
  get :: "exn option"
  current_url :: "exn + string"
  marker_appears :: "nat option"
  page_source :: "exn + node"
  failed_url :: "string option"
  open_w :: "string \<Rightarrow> string option"

datatype 'a outcome = Returned 'a | Raised exn

definition print :: "string \<Rightarrow> world \<Rightarrow> world" where
  "print line w = w\<lparr>console := console w @ [line]\<rparr>"

definition write_file :: "string \<Rightarrow> string \<Rightarrow> world \<Rightarrow> world" where
  "write_file path content w = w\<lparr>files := (files w)(path \<mapsto> content)\<rparr>"

text \<open>
  \<^verbatim>\<open>WebDriverWait(driver, 20).until(presence_of_element_located(...))\<close> returns when the
  element is present within the timeout and raises \<^verbatim>\<open>TimeoutException\<close> otherwise.
\<close>

definition wait_until :: "nat \<Rightarrow> nat option \<Rightarrow> exn option" where
  "wait_until timeout appears =
     (case appears of
        None \<Rightarrow> Some TimeoutException
      | Some t \<Rightarrow> if t \<le> timeout then None else Some TimeoutException)"

text \<open>Lines 60 to 77: the title and the two limits, each kept when its element is found.\<close>

definition extract_title :: "node \<Rightarrow> pydict \<times> world \<Rightarrow> pydict \<times> world" where
  "extract_title problem_statement dw =
     (case find_tag [''div''] (Some ''title'') problem_statement of
        None \<Rightarrow> dw
      | Some title_div \<Rightarrow>
          (dict_set ''title'' (PStr (strip (text_of title_div))) (fst dw),
           print (''Found title: '' @ strip (text_of title_div)) (snd dw)))"

definition extract_time_limit :: "node \<Rightarrow> pydict \<times> world \<Rightarrow> pydict \<times> world" where
  "extract_time_limit problem_statement dw =
     (case find_all [''div''] (Some ''time-limit'') problem_statement of
        [] \<Rightarrow> dw
      | limit # limits \<Rightarrow>
          (dict_set ''time_limit'' (PStr (strip (text_of limit))) (fst dw),
           print (''Found time limit: '' @ strip (text_of limit)) (snd dw)))"

definition extract_memory_limit :: "node \<Rightarrow> pydict \<times> world \<Rightarrow> pydict \<times> world" where
  "extract_memory_limit problem_statement dw =
     (case find_tag [''div''] (Some ''memory-limit'') problem_statement of
        None \<Rightarrow> dw
      | Some memory_limit \<Rightarrow>
          (dict_set ''memory_limit'' (PStr (strip (text_of memory_limit))) (fst dw),
           print (''Found memory limit: '' @ strip (text_of memory_limit)) (snd dw)))"

text \<open>Lines 106 to 125: the samples and the tags are stored and the JSON file is written.\<close>

definition save_json ::
  "browser \<Rightarrow> string \<Rightarrow> node \<Rightarrow> node \<Rightarrow> pydict \<Rightarrow> world \<Rightarrow> (exn + pydict) \<times> world" where
  "save_json b problem_id soup problem_statement data0 w0 =
     (let samples = sample_loop (find_all [''div''] (Some ''sample-test'') problem_statement) [];
          data1 = dict_set ''samples'' (PList samples) data0;
          w1 = print (''Found '' @ str_nat (length samples) @ '' sample tests'') w0;
          data2 = dict_set ''tags'' (PList (collect_tags soup)) data1
      in case open_w b (output_file problem_id) of
           Some m \<Rightarrow> (Inl (OSError m), w1)
         | None \<Rightarrow>
             (Inr data2,
              print (''Data saved to '' @ output_file problem_id)
                (write_file (output_file problem_id) (json_dumps data2) w1)))"

text \<open>Lines 59 to 125: the fields, the text file, then the rest.\<close>

definition extract_fields ::
  "browser \<Rightarrow> string \<Rightarrow> node \<Rightarrow> node \<Rightarrow> world \<Rightarrow> (exn + pydict) \<times> world" where
  "extract_fields b problem_id soup problem_statement w0 =
     (let dw = extract_memory_limit problem_statement
                 (extract_time_limit problem_statement
                   (extract_title problem_statement ([], w0)));
          statement_text = extract_problem_statement problem_statement;
          data = dict_set ''statement'' (PStr statement_text) (fst dw)
      in case open_w b (text_file_path problem_id) of
           Some m \<Rightarrow> (Inl (OSError m), snd dw)
         | None \<Rightarrow>
             save_json b problem_id soup problem_statement data
               (print (''Problem statement saved as text file: '' @ text_file_path problem_id)
                 (write_file (text_file_path problem_id) statement_text (snd dw))))"

text \<open>Lines 52 to 57: the snapshot is parsed and the statement region looked up in it.\<close>

definition parse_page :: "browser \<Rightarrow> string \<Rightarrow> world \<Rightarrow> (exn + pydict) \<times> world" where
  "parse_page b problem_id w =
     (case page_source b of
        Inl e \<Rightarrow> (Inl e, w)
      | Inr soup \<Rightarrow>
          (case find_tag [''div''] (Some ''problem-statement'') soup of
             None \<Rightarrow> (Inl (Exception ''Could not find problem statement''), w)
           | Some problem_statement \<Rightarrow> extract_fields b problem_id soup problem_statement w))"

text \<open>Lines 40 to 125: the body of the \<^verbatim>\<open>try\<close>; \<open>Inl\<close> is the exception it raises.\<close>

definition try_body :: "browser \<Rightarrow> string \<Rightarrow> world \<Rightarrow> (exn + pydict) \<times> world" where
  "try_body b problem_id w =
     (case get b of
        Some e \<Rightarrow> (Inl e, w)
      | None \<Rightarrow>
          (case current_url b of
             Inl e \<Rightarrow> (Inl e, w)
           | Inr u \<Rightarrow>
               (case wait_until 20 (marker_appears b) of
                  Some e \<Rightarrow> (Inl e, print (''Current URL: '' @ u) w)
                | None \<Rightarrow>
                    parse_page b problem_id
                      (print ''Problem statement found, extracting content...''
                        (print (''Current URL: '' @ u) w)))))"

text \<open>Lines 127 to 133: the handler prints the failure and, when it can be read, the address.\<close>

definition except_handler :: "browser \<Rightarrow> string \<Rightarrow> exn \<Rightarrow> world \<Rightarrow> world" where
  "except_handler b problem_id e w =
     (let w1 = print (''Error scraping problem '' @ problem_id @ '': '' @ str_exn e) w
      in case failed_url b of
           None \<Rightarrow> w1
         | Some u \<Rightarrow> print (''Failed URL: '' @ u) w1)"

text \<open>
  \<^verbatim>\<open>scrape_problem\<close>: the session is created before the \<^verbatim>\<open>try\<close>; the handler takes the
  exceptions that are instances of \<^verbatim>\<open>Exception\<close>, any other leaves the function; the
  \<^verbatim>\<open>finally\<close> clause closes the session on every path that entered the \<^verbatim>\<open>try\<close>. The pause of three seconds
  before \<^verbatim>\<open>driver.quit()\<close> changes nothing that is modelled. Printing to the console and
  \<^verbatim>\<open>driver.quit()\<close> are taken not to raise.
\<close>

definition start_session :: "world \<Rightarrow> world" where
  "start_session w = w\<lparr>sessions := Suc (sessions w)\<rparr>"

definition driver_quit :: "world \<Rightarrow> world" where
  "driver_quit w = w\<lparr>sessions := sessions w - 1\<rparr>"

definition scrape_problem ::
  "browser \<Rightarrow> string \<Rightarrow> world \<Rightarrow> pydict option outcome \<times> world" where
  "scrape_problem b problem_id w0 =
     (let url = base_url @ ''/problemset/problem/'' @ problem_id;
          w1 = print (''Accessing URL: '' @ url) w0
      in case setup_driver b of
           Some e \<Rightarrow> (Raised e, w1)
         | None \<Rightarrow>
             (case try_body b problem_id (start_session w1) of
                (Inr data, w3) \<Rightarrow> (Returned (Some data), driver_quit w3)
              | (Inl e, w3) \<Rightarrow>
                  if is_Exception e
                  then (Returned None, driver_quit (except_handler b problem_id e w3))
                  else (Raised e, driver_quit w3)))"

text \<open>The world in which the \<^verbatim>\<open>try\<close> is entered: the address printed, the session open.\<close>

definition entered_try :: "string \<Rightarrow> world \<Rightarrow> world" where
  "entered_try problem_id w =
     start_session (print (''Accessing URL: '' @ base_url @ ''/problemset/problem/'' @ problem_id) w)"

declare str_replace.simps [simp del]

declare string_containers_def [simp] container_of_def [simp]

declare str_nat.simps [simp del]

section \<open>Reading the JSON text back\<close>

text \<open>
  \<^verbatim>\<open>json.load\<close> of the standard library on the values this program writes: strings, arrays
  and objects. Whitespace is skipped between tokens; a string ends at the first unescaped
  quote and may not contain a raw control character; an object becomes a dict, a repeated
  key keeping its first place and its last value; text after the value is an error. A
  four-digit hexadecimal escape is decoded when its code is below 256. The guards on the
  length of the remaining text hold on every input, since each step consumes at least one
  character; they make the recursion visibly terminate.
\<close>

definition is_json_ws :: "char \<Rightarrow> bool" where
  "is_json_ws c = (c = CHR '' '' \<or> c = CHR 0x09 \<or> c = CHR 0x0A \<or> c = CHR 0x0D)"

definition skip_ws :: "string \<Rightarrow> string" where
  "skip_ws s = dropWhile is_json_ws s"

definition hex_value :: "char \<Rightarrow> nat option" where
  "hex_value c =
     (let n = (of_char c :: nat) in
      if 48 \<le> n \<and> n \<le> 57 then Some (n - 48)
      else if 97 \<le> n \<and> n \<le> 102 then Some (n - 87)
      else if 65 \<le> n \<and> n \<le> 70 then Some (n - 55)
      else None)"

definition decode_hex4 :: "string \<Rightarrow> char option" where
  "decode_hex4 ds =
     (case map hex_value ds of
        [Some a, Some b, Some c, Some d] \<Rightarrow>
          (if a = 0 \<and> b = 0 then Some (char_of (16 * c + d)) else None)
      | _ \<Rightarrow> None)"

definition unescape :: "char \<Rightarrow> char option" where
  "unescape e =
     (if e = CHR 0x22 then Some (CHR 0x22)
      else if e = CHR 0x5C then Some (CHR 0x5C)
      else if e = CHR ''/'' then Some (CHR ''/'')
      else if e = CHR ''b'' then Some (CHR 0x08)
      else if e = CHR ''f'' then Some (CHR 0x0C)
      else if e = CHR ''n'' then Some (CHR 0x0A)
      else if e = CHR ''r'' then Some (CHR 0x0D)
      else if e = CHR ''t'' then Some (CHR 0x09)
      else None)"

definition cons_to :: "char \<Rightarrow> (string \<times> string) option \<Rightarrow> (string \<times> string) option" where
  "cons_to c r = (case r of None \<Rightarrow> None | Some (s, rest) \<Rightarrow> Some (c # s, rest))"

fun scanstring :: "string \<Rightarrow> (string \<times> string) option" where
  "scanstring [] = None"
| "scanstring (c # cs) =
     (if c = CHR 0x22 then Some ([], cs)
      else if c = CHR 0x5C then
        (case cs of
           [] \<Rightarrow> None
         | e # cs' \<Rightarrow>
             if e = CHR ''u'' then
               (case decode_hex4 (take 4 cs') of
                  None \<Rightarrow> None
                | Some ch \<Rightarrow> cons_to ch (scanstring (drop 4 cs')))
             else
               (case unescape e of
                  None \<Rightarrow> None
                | Some ch \<Rightarrow> cons_to ch (scanstring cs')))
      else if (of_char c :: nat) < 32 then None
      else cons_to c (scanstring cs))"

definition next_is :: "char \<Rightarrow> string \<Rightarrow> bool" where
  "next_is c s = (case s of [] \<Rightarrow> False | x # xs \<Rightarrow> x = c)"

function parse_value :: "string \<Rightarrow> (pyval \<times> string) option"
  and parse_array :: "string \<Rightarrow> pyval list \<Rightarrow> (pyval list \<times> string) option"
  and parse_object :: "string \<Rightarrow> pydict \<Rightarrow> (pydict \<times> string) option" where
  "parse_value s =
     (if next_is (CHR 0x22) s then
        (case scanstring (tl s) of None \<Rightarrow> None | Some (x, r) \<Rightarrow> Some (PStr x, r))
      else if next_is CHR ''['' s then
        (if next_is CHR '']'' (skip_ws (tl s)) then Some (PList [], tl (skip_ws (tl s)))
         else (case parse_array (skip_ws (tl s)) [] of
                 None \<Rightarrow> None
               | Some (xs, r) \<Rightarrow> Some (PList xs, r)))
      else if next_is CHR ''{'' s then
        (if next_is CHR ''}'' (skip_ws (tl s)) then Some (PDict [], tl (skip_ws (tl s)))
         else (case parse_object (skip_ws (tl s)) [] of
                 None \<Rightarrow> None
               | Some (kvs, r) \<Rightarrow> Some (PDict kvs, r)))
      else None)"
| "parse_array s acc =
     (case parse_value s of
        None \<Rightarrow> None
      | Some (v, r) \<Rightarrow>
          if next_is CHR '']'' (skip_ws r) then Some (acc @ [v], tl (skip_ws r))
          else if next_is CHR '','' (skip_ws r)
                  \<and> length (skip_ws (tl (skip_ws r))) < length s
            then parse_array (skip_ws (tl (skip_ws r))) (acc @ [v])
          else None)"
| "parse_object s acc =
     (if \<not> next_is (CHR 0x22) s then None
      else case scanstring (tl s) of
        None \<Rightarrow> None
      | Some (k, r) \<Rightarrow>
          if next_is CHR '':'' (skip_ws r)
             \<and> length (skip_ws (tl (skip_ws r))) < length s then
            (case parse_value (skip_ws (tl (skip_ws r))) of
               None \<Rightarrow> None
             | Some (v, r') \<Rightarrow>
                 if next_is CHR ''}'' (skip_ws r')
                   then Some (dict_set k v acc, tl (skip_ws r'))
                 else if next_is CHR '','' (skip_ws r')
                         \<and> length (skip_ws (tl (skip_ws r'))) < length s
                   then parse_object (skip_ws (tl (skip_ws r'))) (dict_set k v acc)
                 else None)
          else None)"
  by pat_completeness auto
termination
  apply (relation "measure (\<lambda>x. case x of Inl s \<Rightarrow> 2 * length s
                                  | Inr (Inl (s, acc)) \<Rightarrow> 2 * length s + 1
                                  | Inr (Inr (s, acc)) \<Rightarrow> 2 * length s + 1)")
  apply (auto simp: skip_ws_def next_is_def split: list.splits)
  subgoal for xs using length_dropWhile_le[of is_json_ws xs] by simp
  subgoal for xs using length_dropWhile_le[of is_json_ws xs] by simp
  subgoal for xs using length_dropWhile_le[of is_json_ws xs] by simp
  subgoal for xs using length_dropWhile_le[of is_json_ws xs] by simp
  done

declare parse_value.simps [simp del] parse_array.simps [simp del] parse_object.simps [simp del]

definition json_loads :: "string \<Rightarrow> pyval option" where
  "json_loads s =
     (case parse_value (skip_ws s) of
        None \<Rightarrow> None
      | Some (v, r) \<Rightarrow> if skip_ws r = [] then Some v else None)"

text \<open>
  A JSON value starts with a quote, a bracket or a brace. In a Python dict the keys are
  distinct; \<open>distinct_keys\<close> says so for every dict inside a value.
\<close>

definition starts_value :: "string \<Rightarrow> bool" where
  "starts_value x = (x \<noteq> [] \<and> (hd x = CHR 0x22 \<or> hd x = CHR ''['' \<or> hd x = CHR ''{''))"

fun distinct_keys :: "pyval \<Rightarrow> bool" where
  "distinct_keys (PStr s) = True"
| "distinct_keys (PList xs) = list_all distinct_keys xs"
| "distinct_keys (PDict kvs) = (distinct (map fst kvs) \<and> list_all (\<lambda>kv. distinct_keys (snd kv)) kvs)"

section \<open>The record as the specification lists it\<close>

text \<open>
  The specification lists the fields of the record in a fixed order, the three header
  fields only where their element is found. \<open>header_fields\<close> and \<open>record_of\<close> write this
  list down; \<open>sanitized\<close> is the identifier with every \<^verbatim>\<open>/\<close> replaced by \<^verbatim>\<open>_\<close>. They
  are compared with what the code builds.
\<close>

definition header_fields :: "node \<Rightarrow> pydict" where
  "header_fields problem_statement =
     (case find_tag [''div''] (Some ''title'') problem_statement of
        None \<Rightarrow> []
      | Some t \<Rightarrow> [(''title'', PStr (strip (text_of t)))])
     @ (case find_all [''div''] (Some ''time-limit'') problem_statement of
          [] \<Rightarrow> []
        | t # ts \<Rightarrow> [(''time_limit'', PStr (strip (text_of t)))])
     @ (case find_tag [''div''] (Some ''memory-limit'') problem_statement of
          None \<Rightarrow> []
        | Some t \<Rightarrow> [(''memory_limit'', PStr (strip (text_of t)))])"

definition record_of :: "node \<Rightarrow> node \<Rightarrow> pydict" where
  "record_of soup problem_statement =
     header_fields problem_statement
     @ [(''statement'', PStr (extract_problem_statement problem_statement)),
        (''samples'',
         PList (sample_loop (find_all [''div''] (Some ''sample-test'') problem_statement) [])),
        (''tags'', PList (collect_tags soup))]"

definition sanitized :: "string \<Rightarrow> string" where
  "sanitized problem_id = map (\<lambda>c. if c = CHR ''/'' then CHR ''_'' else c) problem_id"

section \<open>Example documents\<close>

text \<open>
  Two statement regions with one \<^verbatim>\<open>span.math\<close> of text \<^verbatim>\<open>x+y\<close> and one paragraph of text
  \<^verbatim>\<open>Compute x+y.\<close>: in the first the paragraph comes before the span, in the second the
  span lies inside the paragraph.
\<close>

definition prose_first_region :: node where
  "prose_first_region =
     Element ''div'' [''problem-statement'']
       [Element ''p'' [] [Text ''Compute x+y.''], Element ''span'' [''math''] [Text ''x+y'']]"

definition nested_container_region :: "string \<Rightarrow> node" where
  "nested_container_region a =
     Element ''div'' [''problem-statement''] [Element ''div'' [] [Element ''p'' [] [Text a]]]"

definition mixed_region :: node where
  "mixed_region =
     Element ''div'' [''problem-statement'']
       [Element ''p'' [] [Text '' First. ''],
        Element ''p'' []
          [Text ''Let '', Element ''span'' [''math''] [Text ''n''], Text '' be given.''],
        Element ''div'' [] [Text ''Last.'']]"

definition nested_math_region :: node where
  "nested_math_region =
     Element ''div'' [''problem-statement'']
       [Element ''p'' []
          [Text ''Compute '', Element ''span'' [''math''] [Text ''x+y''], Text ''.'']]"

text \<open>
  A page with a title, three sample tests of which the second has no output part, and one
  tag box outside the statement region; a page with the tag box and no statement region.
\<close>

definition full_sample :: "string \<Rightarrow> string \<Rightarrow> node" where
  "full_sample inp outp =
     Element ''div'' [''sample-test'']
       [Element ''div'' [''input''] [Element ''pre'' [] [Text inp]],
        Element ''div'' [''output''] [Element ''pre'' [] [Text outp]]]"

definition input_only_sample :: node where
  "input_only_sample =
     Element ''div'' [''sample-test'']
       [Element ''div'' [''input''] [Element ''pre'' [] [Text ''7'']]]"

definition tag_box :: node where
  "tag_box =
     Element ''div'' [''roundbox'', ''borderTopRound'', ''borderBottomRound'']
       [Element ''span'' [''tag-box''] [Text '' math '']]"

definition sample_region :: node where
  "sample_region =
     Element ''div'' [''problem-statement'']
       [Element ''div'' [''title''] [Text ''A. Sum''],
        full_sample ''1 2'' ''3'', input_only_sample, full_sample ''4 5'' ''9'']"

definition sample_page :: node where
  "sample_page = Element ''[document]'' [] [sample_region, tag_box]"

definition tags_only_page :: node where
  "tags_only_page = Element ''[document]'' [] [Element ''section'' [''problem-statement''] [], tag_box]"

definition empty_world :: world where
  "empty_world = \<lparr>files = Map.empty, console = [], sessions = 0\<rparr>"

definition serving :: "node \<Rightarrow> browser" where
  "serving page =
     \<lparr>setup_driver = None, get = None, current_url = Inr ''https://codeforces.com/'',
      marker_appears = Some 2, page_source = Inr page, failed_url = Some ''https://codeforces.com/'',
      open_w = (\<lambda>p. None)\<rparr>"

text \<open>
  Browsers that fail: no driver can be started; the JSON file of 1/A cannot be opened; the
  navigation is interrupted; the statement never appears.
\<close>

definition no_driver :: browser where
  "no_driver = (serving sample_page)\<lparr>setup_driver := Some (WebDriverException ''Unable to obtain driver for chrome'')\<rparr>"


definition interrupted :: browser where
  "interrupted = (serving sample_page)\<lparr>get := Some KeyboardInterrupt\<rparr>"

definition never_loaded :: browser where
  "never_loaded = (serving sample_page)\<lparr>marker_appears := None\<rparr>"

section \<open>Facts about the library functions\<close>

lemma dropWhile_id: "xs = [] \<or> \<not> P (hd xs) \<Longrightarrow> dropWhile P xs = xs"
  by (cases xs) auto

lemma last_dropWhile:
  "xs \<noteq> [] \<Longrightarrow> \<not> P (last xs) \<Longrightarrow> dropWhile P xs \<noteq> [] \<and> last (dropWhile P xs) = last xs"
  by (induction xs) auto

lemma strip_fixed:
  assumes "s \<noteq> []" "\<not> isspace (hd s)" "\<not> isspace (last s)"
  shows "strip s = s"
proof -
  have 1: "dropWhile isspace s = s" using assms by (simp add: dropWhile_id)
  have "hd (rev s) = last s" using assms(1) by (simp add: hd_rev)
  then have 2: "dropWhile isspace (rev s) = rev s" using assms by (simp add: dropWhile_id)
  show ?thesis by (simp add: strip_def 1 2)
qed

lemma strip_idem: "strip (strip s) = strip s"
proof (cases "strip s = []")
  case True
  have "strip [] = []" by (simp add: strip_def)
  with True show ?thesis by simp
next
  case False
  define a where "a = dropWhile isspace s"
  define b where "b = dropWhile isspace (rev a)"
  have sb: "strip s = rev b" by (simp add: strip_def a_def b_def)
  with False have bne: "b \<noteq> []" by simp
  then have ane: "a \<noteq> []" by (auto simp: b_def)
  have ha: "\<not> isspace (hd a)"
    using ane hd_dropWhile[of isspace s] unfolding a_def by blast
  have hb: "\<not> isspace (hd b)"
    using bne hd_dropWhile[of isspace "rev a"] unfolding b_def by blast
  have "last (rev a) = hd a" using ane by (simp add: last_rev)
  then have "last b = hd a"
    using last_dropWhile[of "rev a" isspace] ane ha by (simp add: b_def)
  then have "hd (rev b) = hd a" using bne by (simp add: hd_rev)
  moreover have "last (rev b) = hd b" using bne by (simp add: last_rev)
  ultimately have "strip (rev b) = rev b"
    using strip_fixed[of "rev b"] bne ha hb by simp
  then show ?thesis by (simp add: sb)
qed

lemma strip_delimited: "strip (''$$ '' @ x @ '' $$'') = ''$$ '' @ x @ '' $$''"
  by (rule strip_fixed) (simp_all add: isspace_def)

lemma find_tag_None:
  "find_tag names c t = None \<longleftrightarrow> (\<forall>d \<in> set (descendants t). \<not> matches names c d)"
proof -
  have "find_tag names c t = None \<longleftrightarrow> filter (matches names c) (descendants t) = []"
    by (simp add: find_tag_def find_all_def split: list.splits)
  then show ?thesis by (simp add: filter_empty_conv)
qed

lemma str_replace_slash:
  "str_replace ''/'' ''_'' s = map (\<lambda>c. if c = CHR ''/'' then CHR ''_'' else c) s"
proof (induction s)
  case Nil
  then show ?case by (subst str_replace.simps) simp
next
  case (Cons a s)
  then show ?case by (subst str_replace.simps) auto
qed

section \<open>The loops\<close>

lemma latex_loop_eq:
  "latex_loop xs acc = acc @ map (\<lambda>l. ''$$ '' @ strip (text_of l) @ '' $$'') xs"
  by (induction xs arbitrary: acc) auto

lemma paragraph_loop_eq:
  "paragraph_loop xs acc =
     acc @ map (\<lambda>p. strip (text_of p))
             (filter (\<lambda>p. find_tag [''span''] (Some ''math'') p = None) xs)"
  by (induction xs arbitrary: acc) auto

lemma statement_fragments_eq:
  "statement_fragments r =
     map (\<lambda>l. ''$$ '' @ strip (text_of l) @ '' $$'') (find_all [''span''] (Some ''math'') r)
     @ map (\<lambda>p. strip (text_of p))
         (filter (\<lambda>p. find_tag [''span''] (Some ''math'') p = None)
            (find_all [''p'', ''div''] None r))"
  by (simp add: statement_fragments_def latex_loop_eq paragraph_loop_eq)

lemma fragment_empty_iff:
  assumes "f \<in> set (statement_fragments r)"
  shows "strip f = [] \<longleftrightarrow> f = []"
proof -
  from assms consider
      x where "f = ''$$ '' @ x @ '' $$''"
    | y where "f = strip y"
    unfolding statement_fragments_eq by auto
  then have "strip f = f"
  proof cases
    case 1
    then show ?thesis by (simp only: strip_delimited)
  next
    case 2
    then show ?thesis by (simp only: strip_idem)
  qed
  then show ?thesis by simp
qed

lemma sample_loop_step: "sample_loop (t # ts) acc = sample_loop ts (acc @ sample_loop [t] [])"
  by (simp split: option.splits)

lemma sample_loop_acc: "sample_loop ts acc = acc @ concat (map (\<lambda>t. sample_loop [t] []) ts)"
proof (induction ts arbitrary: acc)
  case Nil
  then show ?case by simp
next
  case (Cons t ts)
  show ?case
    by (subst sample_loop_step) (simp add: Cons)
qed

lemma tag_loop_eq:
  "tag_loop ds acc =
     acc @ map (\<lambda>s. PStr (strip (text_of s)))
             (List.map_filter (find_tag [''span''] (Some ''tag-box'')) ds)"
  by (induction ds arbitrary: acc) (auto simp: List.map_filter_simps split: option.splits)

section \<open>The record and the two files\<close>

lemma map_of_dict_set: "map_of (dict_set k v d) = (map_of d)(k \<mapsto> v)"
  by (induction d) auto

lemma dict_set_fresh: "k \<notin> fst ` set d \<Longrightarrow> dict_set k v d = d @ [(k, v)]"
  by (induction d) auto

lemma paths_differ: "text_file_path p \<noteq> output_file p"
  by (simp add: text_file_path_def output_file_def path_join_def data_dir_def)

lemma header_world:
  "files (snd (extract_title ps dw)) = files (snd dw)"
  "files (snd (extract_time_limit ps dw)) = files (snd dw)"
  "files (snd (extract_memory_limit ps dw)) = files (snd dw)"
  "sessions (snd (extract_title ps dw)) = sessions (snd dw)"
  "sessions (snd (extract_time_limit ps dw)) = sessions (snd dw)"
  "sessions (snd (extract_memory_limit ps dw)) = sessions (snd dw)"
  by (simp_all add: extract_title_def extract_time_limit_def extract_memory_limit_def print_def
        split: option.splits list.splits)

lemma header_fields_eq:
  "fst (extract_memory_limit ps (extract_time_limit ps (extract_title ps ([], w))))
   = header_fields ps"
  by (simp add: extract_title_def extract_time_limit_def extract_memory_limit_def
        header_fields_def split: option.splits list.splits)

lemma header_keys:
  "fst ` set (header_fields ps) \<subseteq> {''title'', ''time_limit'', ''memory_limit''}"
  by (auto simp: header_fields_def split: option.splits list.splits)

lemma record_of_eq:
  "dict_set ''tags'' tg (dict_set ''samples'' sm (dict_set ''statement'' st (header_fields ps)))
   = header_fields ps @ [(''statement'', st), (''samples'', sm), (''tags'', tg)]"
proof -
  have 1: "''statement'' \<notin> fst ` set (header_fields ps)"
    using header_keys[of ps] by auto
  have 2: "''samples'' \<notin> fst ` set (header_fields ps @ [(''statement'', st)])"
    using header_keys[of ps] by auto
  have 3: "''tags'' \<notin> fst ` set (header_fields ps @ [(''statement'', st), (''samples'', sm)])"
    using header_keys[of ps] by auto
  show ?thesis
    using dict_set_fresh[OF 1, of st] dict_set_fresh[OF 2, of sm] dict_set_fresh[OF 3, of tg]
    by simp
qed

lemma record_of_lookup:
  "map_of (record_of soup ps) ''statement'' = Some (PStr (extract_problem_statement ps))"
  "map_of (record_of soup ps) ''samples''
     = Some (PList (sample_loop (find_all [''div''] (Some ''sample-test'') ps) []))"
  "map_of (record_of soup ps) ''tags'' = Some (PList (collect_tags soup))"
proof -
  have "map_of (header_fields ps) ''statement'' = None" "map_of (header_fields ps) ''samples'' = None"
    "map_of (header_fields ps) ''tags'' = None"
    using header_keys[of ps] by (auto simp: map_of_eq_None_iff)
  then show "map_of (record_of soup ps) ''statement'' = Some (PStr (extract_problem_statement ps))"
  "map_of (record_of soup ps) ''samples''
     = Some (PList (sample_loop (find_all [''div''] (Some ''sample-test'') ps) []))"
  "map_of (record_of soup ps) ''tags'' = Some (PList (collect_tags soup))"
    by (simp_all add: record_of_def map_add_def)
qed

lemma sanitized_paths:
  "text_file_path pid = ''scraped_data/problem_'' @ sanitized pid @ ''.txt''"
  "output_file pid = ''scraped_data/problem_'' @ sanitized pid @ ''.json''"
  by (simp_all add: text_file_path_def output_file_def path_join_def data_dir_def
        str_replace_slash sanitized_def)

text \<open>What holds when the body of the \<^verbatim>\<open>try\<close> returns, and when it raises.\<close>

lemma try_body_Inr:
  assumes "try_body b pid w = (Inr data, w')"
  shows "\<exists>soup ps u. page_source b = Inr soup
     \<and> find_tag [''div''] (Some ''problem-statement'') soup = Some ps
     \<and> get b = None \<and> current_url b = Inr u \<and> wait_until 20 (marker_appears b) = None
     \<and> open_w b (text_file_path pid) = None \<and> open_w b (output_file pid) = None
     \<and> data = record_of soup ps
     \<and> files w' = (files w)(text_file_path pid \<mapsto> extract_problem_statement ps,
                             output_file pid \<mapsto> json_dumps data)
     \<and> sessions w' = sessions w"
  using assms
  unfolding try_body_def parse_page_def extract_fields_def save_json_def record_of_def
  by (auto simp: Let_def print_def write_file_def header_world header_fields_eq record_of_eq
        split: option.splits sum.splits)

lemma try_body_Inl:
  assumes "try_body b pid w = (Inl e, w')"
  shows "sessions w' = sessions w
     \<and> files w' (output_file pid) = files w (output_file pid)
     \<and> (files w' = files w
        \<or> (\<exists>soup ps. page_source b = Inr soup
             \<and> find_tag [''div''] (Some ''problem-statement'') soup = Some ps
             \<and> open_w b (text_file_path pid) = None
             \<and> (\<exists>m. open_w b (output_file pid) = Some m \<and> e = OSError m)
             \<and> files w' = (files w)(text_file_path pid \<mapsto> extract_problem_statement ps)))"
  using assms paths_differ[of pid]
  unfolding try_body_def parse_page_def extract_fields_def save_json_def
  by (auto simp: Let_def print_def write_file_def header_world
        split: option.splits sum.splits)

lemma scrape_problem_cases:
  assumes "setup_driver b = None"
  shows "(\<exists>data w3. try_body b pid (entered_try pid w) = (Inr data, w3)
            \<and> scrape_problem b pid w = (Returned (Some data), driver_quit w3))
       \<or> (\<exists>e w3. try_body b pid (entered_try pid w) = (Inl e, w3) \<and> is_Exception e
            \<and> scrape_problem b pid w
                = (Returned None, driver_quit (except_handler b pid e w3)))
       \<or> (\<exists>e w3. try_body b pid (entered_try pid w) = (Inl e, w3) \<and> \<not> is_Exception e
            \<and> scrape_problem b pid w = (Raised e, driver_quit w3))"
proof (cases "try_body b pid (entered_try pid w)")
  case (Pair r w3)
  then show ?thesis using assms
    by (cases r) (simp_all add: scrape_problem_def entered_try_def Let_def)
qed

text \<open>Which exception the body raises when the wait is not passed.\<close>

lemma try_body_before_parse:
  assumes "wait_until 20 (marker_appears b) \<noteq> None"
    and "try_body b pid w = (Inl e, w')"
  shows "(get b = Some e \<or> current_url b = Inl e \<or> e = TimeoutException) \<and> files w' = files w"
  using assms unfolding try_body_def
  by (auto simp: print_def wait_until_def split: option.splits sum.splits if_splits)

lemma entered_world:
  "files (entered_try pid w) = files w"
  "sessions (entered_try pid w) = Suc (sessions w)"
  by (simp_all add: entered_try_def start_session_def print_def)

lemma handler_world:
  "files (except_handler b pid e w) = files w"
  "sessions (except_handler b pid e w) = sessions w"
  "console (except_handler b pid e w)
     = console w @ [''Error scraping problem '' @ pid @ '': '' @ str_exn e]
       @ (case failed_url b of None \<Rightarrow> [] | Some u \<Rightarrow> [''Failed URL: '' @ u])"
  by (simp_all add: except_handler_def print_def Let_def split: option.splits)

lemma quit_world:
  "files (driver_quit w) = files w"
  "sessions (driver_quit w) = sessions w - 1"
  "console (driver_quit w) = console w"
  by (simp_all add: driver_quit_def)

lemma scrape_problem_Some:
  assumes "fst (scrape_problem b pid w) = Returned (Some data)"
  shows "\<exists>soup ps u. setup_driver b = None \<and> page_source b = Inr soup
     \<and> find_tag [''div''] (Some ''problem-statement'') soup = Some ps
     \<and> get b = None \<and> current_url b = Inr u \<and> wait_until 20 (marker_appears b) = None
     \<and> open_w b (text_file_path pid) = None \<and> open_w b (output_file pid) = None
     \<and> data = record_of soup ps
     \<and> files (snd (scrape_problem b pid w))
         = (files w)(text_file_path pid \<mapsto> extract_problem_statement ps,
                      output_file pid \<mapsto> json_dumps data)
     \<and> sessions (snd (scrape_problem b pid w)) = sessions w"
proof -
  have s: "setup_driver b = None"
    using assms by (auto simp: scrape_problem_def Let_def split: option.splits)
  from scrape_problem_cases[OF s, of pid w] assms
  obtain w3 where t: "try_body b pid (entered_try pid w) = (Inr data, w3)"
    and r: "scrape_problem b pid w = (Returned (Some data), driver_quit w3)"
    by auto
  from try_body_Inr[OF t] s r show ?thesis
    by (auto simp: quit_world entered_world)
qed

text \<open>The definitions that a run on a concrete page unfolds.\<close>

lemmas run_defs =
  scrape_problem_def try_body_def parse_page_def extract_fields_def save_json_def
  except_handler_def extract_title_def extract_time_limit_def extract_memory_limit_def
  extract_problem_statement_def statement_fragments_def collect_tags_def wait_until_def
  find_tag_def find_all_def class_matches_def strip_def isspace_def print_def write_file_def
  start_session_def driver_quit_def text_file_path_def output_file_def path_join_def
  data_dir_def base_url_def

lemmas page_defs =
  serving_def sample_page_def sample_region_def tag_box_def full_sample_def
  input_only_sample_def tags_only_page_def empty_world_def

section \<open>The JSON text is read back unchanged\<close>

lemma hex_value_digit: "n < 16 \<Longrightarrow> hex_value (hex_digit n) = Some n"
proof -
  assume "n < 16"
  then have "n \<in> set [0..<16]" by simp
  then have "n \<in> {0,1,2,3,4,5,6,7,8,9,10,11,12,13,14,15}" by (simp add: upt_rec numeral_eq_Suc) 
  then show ?thesis
    by (auto simp add: hex_digit_def hex_value_def)
qed

lemma decode_hex4_control:
  assumes "(of_char c :: nat) < 32"
  shows "decode_hex4 [CHR ''0'', CHR ''0'', hex_digit (of_char c div 16), hex_digit (of_char c mod 16)] = Some c"
proof -
  have a: "hex_value (hex_digit (of_char c div 16)) = Some (of_char c div 16)"
    using assms by (intro hex_value_digit) simp
  have b: "hex_value (hex_digit (of_char c mod 16)) = Some (of_char c mod 16)"
    by (intro hex_value_digit) simp
  have z: "hex_value CHR ''0'' = Some 0" by (simp add: hex_value_def)
  show ?thesis by (simp add: decode_hex4_def a b z)
qed

lemma scanstring_escape:
  assumes "scanstring rest = Some (s, r)"
  shows "scanstring (escape_char c @ rest) = Some (c # s, r)"
proof -
  consider "c = CHR 0x22" | "c = CHR 0x5C" | "c = CHR 0x0A" | "c = CHR 0x0D" | "c = CHR 0x09"
    | "c = CHR 0x08" | "c = CHR 0x0C"
    | "c \<notin> {CHR 0x22, CHR 0x5C, CHR 0x0A, CHR 0x0D, CHR 0x09, CHR 0x08, CHR 0x0C}" "(of_char c :: nat) < 32"
    | "c \<notin> {CHR 0x22, CHR 0x5C, CHR 0x0A, CHR 0x0D, CHR 0x09, CHR 0x08, CHR 0x0C}" "\<not> (of_char c :: nat) < 32"
    by blast
  then show ?thesis
  proof cases
    case 8
    then show ?thesis using assms decode_hex4_control[OF 8(2)]
      by (simp add: escape_char_def cons_to_def)
  next
    case 9
    then show ?thesis using assms by (simp add: escape_char_def cons_to_def)
  qed (simp_all add: escape_char_def unescape_def cons_to_def assms)
qed

lemma scanstring_encoded:
  "scanstring (concat (map escape_char s) @ CHR 0x22 # rest) = Some (s, rest)"
proof (induction s)
  case Nil
  show ?case by simp
next
  case (Cons a s)
  then show ?case by (simp add: scanstring_escape del: scanstring.simps(2))
qed


lemma skip_ws_newline_indent: "skip_ws (newline_indent l @ x) = skip_ws x"
  by (simp add: skip_ws_def newline_indent_def is_json_ws_def dropWhile_append)

lemma skip_ws_starts_value: "starts_value x \<Longrightarrow> skip_ws (x @ y) = x @ y"
  by (cases x) (auto simp: starts_value_def skip_ws_def is_json_ws_def)

lemma skip_ws_punct:
  "skip_ws (CHR '','' # x) = CHR '','' # x"
  "skip_ws (CHR '']'' # x) = CHR '']'' # x"
  "skip_ws (CHR ''}'' # x) = CHR ''}'' # x"
  "skip_ws (CHR '':'' # x) = CHR '':'' # x"
  "skip_ws (CHR '' '' # x) = skip_ws x"
  by (simp_all add: skip_ws_def is_json_ws_def)

lemma starts_value_iterencode: "starts_value (iterencode l v)"
  by (cases v) (simp_all add: starts_value_def encode_basestring_def)

lemma starts_value_encode_basestring: "starts_value (encode_basestring k @ x)"
  by (simp add: starts_value_def encode_basestring_def)

lemma starts_value_append: "starts_value x \<Longrightarrow> starts_value (x @ y)"
  by (cases x) (auto simp: starts_value_def)

lemma starts_value_join:
  "xs \<noteq> [] \<Longrightarrow> (\<And>x. x \<in> set xs \<Longrightarrow> starts_value x) \<Longrightarrow> starts_value (join sep xs)"
  by (induction sep xs rule: join.induct) (auto simp: starts_value_append)

lemma next_is_simps [simp]: "next_is c [] = False" "next_is c (x # xs) = (x = c)"
  by (simp_all add: next_is_def)

lemma starts_value_facts:
  assumes "starts_value x"
  shows "x @ y \<noteq> []" "\<not> next_is CHR '']'' (x @ y)" "\<not> next_is CHR ''}'' (x @ y)"
  using assms by (cases x; auto simp: starts_value_def)+

lemma parse_value_string:
  "parse_value (encode_basestring s @ rest) = Some (PStr s, rest)"
  by (subst parse_value.simps) (simp add: encode_basestring_def scanstring_encoded)

lemma parse_array_items:
  assumes "xs \<noteq> []"
    and "\<And>x rest. x \<in> set xs \<Longrightarrow> parse_value (iterencode l x @ rest) = Some (x, rest)"
  shows "parse_array (join (CHR '','' # newline_indent l) (map (iterencode l) xs)
                      @ newline_indent l' @ CHR '']'' # rest) acc
         = Some (acc @ xs, rest)"
  using assms
proof (induction xs arbitrary: acc rule: list_nonempty_induct)
  case (single x)
  have pv: "parse_value (iterencode l x @ newline_indent l' @ CHR '']'' # rest)
            = Some (x, newline_indent l' @ CHR '']'' # rest)"
    using single by simp
  show ?case
    by (subst parse_array.simps) (simp add: pv skip_ws_newline_indent skip_ws_punct)
next
  case (cons x xs)
  define tail where "tail = join (CHR '','' # newline_indent l) (map (iterencode l) xs)
                      @ newline_indent l' @ CHR '']'' # rest"
  have sv: "starts_value (join (CHR '','' # newline_indent l) (map (iterencode l) xs))"
    using cons.hyps(1) by (intro starts_value_join) (auto simp: starts_value_iterencode)
  have st: "skip_ws tail = tail"
    unfolding tail_def using skip_ws_starts_value[OF sv] by simp
  obtain y ys where xs: "xs = y # ys" using cons.hyps(1) by (cases xs) auto
  have whole: "join (CHR '','' # newline_indent l) (map (iterencode l) (x # xs))
                      @ newline_indent l' @ CHR '']'' # rest
               = iterencode l x @ CHR '','' # newline_indent l @ tail"
    by (simp add: xs tail_def)
  have pv: "parse_value (iterencode l x @ CHR '','' # newline_indent l @ tail)
            = Some (x, CHR '','' # newline_indent l @ tail)"
    using cons.prems by simp
  have ih: "parse_array tail (acc @ [x]) = Some (acc @ x # xs, rest)"
    unfolding tail_def using cons.IH[of "acc @ [x]"] cons.prems by simp
  show ?case
    unfolding whole
    by (subst parse_array.simps)
       (simp add: pv skip_ws_newline_indent skip_ws_punct st ih)
qed


lemma encode_basestring_parts:
  "next_is c (encode_basestring k @ x) = (c = CHR 0x22)"
  "tl (encode_basestring k @ x) = concat (map escape_char k) @ CHR 0x22 # x"
  by (auto simp add: encode_basestring_def)

lemma parse_object_items:
  assumes "kvs \<noteq> []"
    and "\<And>kv rest. kv \<in> set kvs \<Longrightarrow>
            parse_value (iterencode l (snd kv) @ rest) = Some (snd kv, rest)"
  shows "parse_object
           (join (CHR '','' # newline_indent l)
              (map (\<lambda>kv. encode_basestring (fst kv) @ CHR '':'' # CHR '' '' # iterencode l (snd kv)) kvs)
            @ newline_indent l' @ CHR ''}'' # rest) acc
         = Some (foldl (\<lambda>d kv. dict_set (fst kv) (snd kv) d) acc kvs, rest)"
  using assms
proof (induction kvs arbitrary: acc rule: list_nonempty_induct)
  case (single kv)
  have pv: "parse_value (iterencode l (snd kv) @ newline_indent l' @ CHR ''}'' # rest)
            = Some (snd kv, newline_indent l' @ CHR ''}'' # rest)"
    using single by simp
  have sk: "skip_ws (iterencode l (snd kv) @ newline_indent l' @ CHR ''}'' # rest)
            = iterencode l (snd kv) @ newline_indent l' @ CHR ''}'' # rest"
    using skip_ws_starts_value[OF starts_value_iterencode] .
  show ?case
    by (subst parse_object.simps)
       (simp add: encode_basestring_parts scanstring_encoded skip_ws_punct sk pv
          skip_ws_newline_indent)
next
  case (cons kv kvs)
  define enc where "enc = (\<lambda>kv. encode_basestring (fst kv) @ CHR '':'' # CHR '' '' # iterencode l (snd kv))"
  define tail where "tail = join (CHR '','' # newline_indent l) (map enc kvs)
                      @ newline_indent l' @ CHR ''}'' # rest"
  have sv: "starts_value (join (CHR '','' # newline_indent l) (map enc kvs))"
    using cons.hyps(1)
    by (intro starts_value_join) (auto simp: enc_def starts_value_encode_basestring)
  have st: "skip_ws tail = tail"
    unfolding tail_def using skip_ws_starts_value[OF sv] by simp
  obtain y ys where kvs: "kvs = y # ys" using cons.hyps(1) by (cases kvs) auto
  have whole: "join (CHR '','' # newline_indent l)
              (map (\<lambda>kv. encode_basestring (fst kv) @ CHR '':'' # CHR '' '' # iterencode l (snd kv)) (kv # kvs))
            @ newline_indent l' @ CHR ''}'' # rest
          = encode_basestring (fst kv) @ CHR '':'' # CHR '' '' # iterencode l (snd kv)
            @ CHR '','' # newline_indent l @ tail"
    by (simp add: kvs tail_def enc_def)
  have pv: "parse_value (iterencode l (snd kv) @ CHR '','' # newline_indent l @ tail)
            = Some (snd kv, CHR '','' # newline_indent l @ tail)"
    using cons.prems by simp
  have sk: "skip_ws (iterencode l (snd kv) @ CHR '','' # newline_indent l @ tail)
            = iterencode l (snd kv) @ CHR '','' # newline_indent l @ tail"
    using skip_ws_starts_value[OF starts_value_iterencode] .
  have ih: "parse_object tail (dict_set (fst kv) (snd kv) acc)
            = Some (foldl (\<lambda>d kv. dict_set (fst kv) (snd kv) d) (dict_set (fst kv) (snd kv) acc) kvs, rest)"
    unfolding tail_def enc_def using cons.IH[of "dict_set (fst kv) (snd kv) acc"] cons.prems by simp
  show ?case
    unfolding whole
    by (subst parse_object.simps)
       (simp add: encode_basestring_parts scanstring_encoded skip_ws_punct sk pv
          skip_ws_newline_indent st ih)
qed

lemma foldl_dict_set_distinct:
  "distinct (map fst (acc @ kvs)) \<Longrightarrow>
     foldl (\<lambda>d kv. dict_set (fst kv) (snd kv) d) acc kvs = acc @ kvs"
proof (induction kvs arbitrary: acc)
  case Nil
  show ?case by simp
next
  case (Cons kv kvs)
  have "fst kv \<notin> fst ` set acc" using Cons.prems by auto
  then have "dict_set (fst kv) (snd kv) acc = acc @ [kv]" by (simp add: dict_set_fresh)
  moreover have "distinct (map fst ((acc @ [kv]) @ kvs))" using Cons.prems by simp
  ultimately show ?case using Cons.IH[of "acc @ [kv]"] by simp
qed

lemma parse_value_iterencode:
  "distinct_keys v \<Longrightarrow> parse_value (iterencode l v @ rest) = Some (v, rest)"
proof (induction v arbitrary: l rest)
  case (PStr s)
  show ?case by (simp add: parse_value_string)
next
  case (PList xs)
  show ?case
  proof (cases "xs = []")
    case True
    then show ?thesis by (subst parse_value.simps) (simp add: skip_ws_punct)
  next
    case False
    have each: "\<And>x rest. x \<in> set xs \<Longrightarrow>
                  parse_value (iterencode (Suc l) x @ rest) = Some (x, rest)"
      using PList by (simp add: list_all_iff)
    have sv: "starts_value (join (CHR '','' # newline_indent (Suc l)) (map (iterencode (Suc l)) xs))"
      using False by (intro starts_value_join) (auto simp: starts_value_iterencode)
    note body = parse_array_items[OF False each, of l rest "[]"]
    show ?thesis
      using False
      by (subst parse_value.simps)
         (simp add: skip_ws_newline_indent skip_ws_starts_value[OF sv]
            starts_value_facts[OF sv] body)
  qed
next
  case (PDict kvs)
  show ?case
  proof (cases "kvs = []")
    case True
    then show ?thesis by (subst parse_value.simps) (simp add: skip_ws_punct)
  next
    case False
    have each: "\<And>kv rest. kv \<in> set kvs \<Longrightarrow>
                  parse_value (iterencode (Suc l) (snd kv) @ rest) = Some (snd kv, rest)"
    proof -
      fix kv rest assume m: "kv \<in> set kvs"
      then have "distinct_keys (snd kv)" using PDict.prems by (simp add: list_all_iff)
      moreover have "snd kv \<in> Basic_BNFs.snds kv" by (cases kv) simp
      ultimately show "parse_value (iterencode (Suc l) (snd kv) @ rest) = Some (snd kv, rest)"
        using PDict.IH[OF m] by blast
    qed
    have sv: "starts_value (join (CHR '','' # newline_indent (Suc l))
               (map (\<lambda>kv. encode_basestring (fst kv) @ CHR '':'' # CHR '' '' # iterencode (Suc l) (snd kv)) kvs))"
      using False by (intro starts_value_join) (auto simp: starts_value_encode_basestring)
    have d: "foldl (\<lambda>d kv. dict_set (fst kv) (snd kv) d) [] kvs = kvs"
      using foldl_dict_set_distinct[of "[]" kvs] PDict.prems by simp
    note body = parse_object_items[OF False each, of l rest "[]", unfolded d]
    show ?thesis
      using False
      by (subst parse_value.simps)
         (simp add: skip_ws_newline_indent skip_ws_starts_value[OF sv]
            starts_value_facts[OF sv] body)
  qed
qed

lemma json_loads_dumps:
  "distinct_keys (PDict data) \<Longrightarrow> json_loads (json_dumps data) = Some (PDict data)"
  using parse_value_iterencode[of "PDict data" 0 "[]"]
    skip_ws_starts_value[OF starts_value_iterencode, of 0 "PDict data" "[]"]
  by (simp add: json_loads_def json_dumps_def skip_ws_def)


lemma distinct_keys_samples: "list_all distinct_keys (sample_loop ts [])"
proof -
  have one: "list_all distinct_keys (sample_loop [t] [])" for t
    by (simp split: option.splits)
  have "list_all distinct_keys (concat (map (\<lambda>t. sample_loop [t] []) ts))"
    by (induction ts) (simp_all add: one del: sample_loop.simps)
  then show ?thesis using sample_loop_acc[of ts "[]"] by simp
qed

lemma distinct_keys_tags: "list_all distinct_keys (collect_tags soup)"
  by (auto simp: collect_tags_def Let_def tag_loop_eq list_all_iff)

lemma distinct_keys_header:
  "distinct (map fst (header_fields ps))"
  "list_all (\<lambda>kv. distinct_keys (snd kv)) (header_fields ps)"
  by (simp_all add: header_fields_def split: option.splits list.splits)

lemma distinct_keys_record: "distinct_keys (PDict (record_of soup ps))"
  using header_keys[of ps]
  by (auto simp: record_of_def distinct_keys_header distinct_keys_samples distinct_keys_tags)

lemma json_dumps_example:
  "json_dumps [(''title'', PStr ''A''), (''samples'', PList []), (''tags'', PList [PStr ''dp''])]
   = [CHR ''{'', CHR 0x0A] @ ''  '' @ [CHR 0x22] @ ''title'' @ [CHR 0x22] @ '': '' @ [CHR 0x22] @ ''A'' @ [CHR 0x22, CHR '','', CHR 0x0A]
     @ ''  '' @ [CHR 0x22] @ ''samples'' @ [CHR 0x22] @ '': [],'' @ [CHR 0x0A]
     @ ''  '' @ [CHR 0x22] @ ''tags'' @ [CHR 0x22] @ '': ['' @ [CHR 0x0A]
     @ ''    '' @ [CHR 0x22] @ ''dp'' @ [CHR 0x22, CHR 0x0A]
     @ ''  ]'' @ [CHR 0x0A] @ ''}''"
  by (simp add: json_dumps_def encode_basestring_def escape_char_def newline_indent_def numeral_eq_Suc)

section \<open>The statement text: ordering, skipping, duplication\<close>

text \<open>
  C1, as amended. For every region, the statement text is the newline-joined list of the
  delimited texts of all \<^verbatim>\<open>span.math\<close> elements followed by the stripped texts of all
  \<^verbatim>\<open>p\<close> and \<^verbatim>\<open>div\<close> elements without a \<^verbatim>\<open>span.math\<close> below them, the fragments that are
  empty after stripping left out. A region whose one \<^verbatim>\<open>span.math\<close> has the text \<^verbatim>\<open>x+y\<close>
  and whose one \<^verbatim>\<open>p\<close> or \<^verbatim>\<open>div\<close> has the text \<^verbatim>\<open>Compute x+y.\<close> and does not contain the
  span gives \<^verbatim>\<open>$$ x+y $$\<close>, a newline, \<^verbatim>\<open>Compute x+y.\<close>, wherever the two stand in the
  document.
\<close>

theorem math_block_before_prose:
  "extract_problem_statement r =
     join [CHR 0x0A]
       (filter (\<lambda>f. strip f \<noteq> [])
          (map (\<lambda>l. ''$$ '' @ strip (text_of l) @ '' $$'') (find_all [''span''] (Some ''math'') r)
           @ map (\<lambda>p. strip (text_of p))
               (filter (\<lambda>p. find_tag [''span''] (Some ''math'') p = None)
                  (find_all [''p'', ''div''] None r))))
   \<and> (find_all [''span''] (Some ''math'') r = [m] \<longrightarrow> strip (text_of m) = ''x+y'' \<longrightarrow>
      find_all [''p'', ''div''] None r = [q] \<longrightarrow> strip (text_of q) = ''Compute x+y.'' \<longrightarrow>
      find_tag [''span''] (Some ''math'') q = None \<longrightarrow>
      extract_problem_statement r = ''$$ x+y $$'' @ [CHR 0x0A] @ ''Compute x+y.'')"
proof
  have "filter (\<lambda>f. strip f \<noteq> []) (statement_fragments r)
        = filter (\<lambda>f. f \<noteq> []) (statement_fragments r)"
    by (rule filter_cong) (simp_all add: fragment_empty_iff)
  then show "extract_problem_statement r =
     join [CHR 0x0A]
       (filter (\<lambda>f. strip f \<noteq> [])
          (map (\<lambda>l. ''$$ '' @ strip (text_of l) @ '' $$'') (find_all [''span''] (Some ''math'') r)
           @ map (\<lambda>p. strip (text_of p))
               (filter (\<lambda>p. find_tag [''span''] (Some ''math'') p = None)
                  (find_all [''p'', ''div''] None r))))"
    by (simp only: extract_problem_statement_def statement_fragments_eq)
next
  show "find_all [''span''] (Some ''math'') r = [m] \<longrightarrow> strip (text_of m) = ''x+y'' \<longrightarrow>
      find_all [''p'', ''div''] None r = [q] \<longrightarrow> strip (text_of q) = ''Compute x+y.'' \<longrightarrow>
      find_tag [''span''] (Some ''math'') q = None \<longrightarrow>
      extract_problem_statement r = ''$$ x+y $$'' @ [CHR 0x0A] @ ''Compute x+y.''"
    by (simp add: extract_problem_statement_def statement_fragments_eq)
qed

theorem math_block_before_prose_witness:
  "find_all [''span''] (Some ''math'') prose_first_region
     = [Element ''span'' [''math''] [Text ''x+y'']]
   \<and> strip (text_of (Element ''span'' [''math''] [Text ''x+y''])) = ''x+y''
   \<and> find_all [''p'', ''div''] None prose_first_region
     = [Element ''p'' [] [Text ''Compute x+y.'']]
   \<and> strip (text_of (Element ''p'' [] [Text ''Compute x+y.''])) = ''Compute x+y.''
   \<and> find_tag [''span''] (Some ''math'') (Element ''p'' [] [Text ''Compute x+y.'']) = None
   \<and> extract_problem_statement prose_first_region
     = ''$$ x+y $$'' @ [CHR 0x0A] @ ''Compute x+y.''"
  using math_block_before_prose [of prose_first_region
          "Element ''span'' [''math''] [Text ''x+y'']"
          "Element ''p'' [] [Text ''Compute x+y.'']"]
  by (simp add: prose_first_region_def find_all_def find_tag_def class_matches_def
        strip_def isspace_def)

text \<open>
  C1 as stated fails where the span lies inside the paragraph: the region has one
  \<^verbatim>\<open>span.math\<close> of text \<^verbatim>\<open>x+y\<close> and one paragraph of text \<^verbatim>\<open>Compute x+y.\<close>, the paragraph
  is skipped, and the statement text is \<^verbatim>\<open>$$ x+y $$\<close> alone.
\<close>

theorem nested_math_drops_paragraph:
  "map text_of (find_all [''span''] (Some ''math'') nested_math_region) = [''x+y'']
   \<and> map text_of (find_all [''p'', ''div''] None nested_math_region) = [''Compute x+y.'']
   \<and> extract_problem_statement nested_math_region = ''$$ x+y $$''
   \<and> extract_problem_statement nested_math_region
       \<noteq> ''$$ x+y $$'' @ [CHR 0x0A] @ ''Compute x+y.''"
  by (simp add: nested_math_region_def extract_problem_statement_def statement_fragments_def
        find_all_def find_tag_def class_matches_def strip_def isspace_def)

text \<open>
  C6. The prose pass appends, in document order, the stripped text of exactly those \<^verbatim>\<open>p\<close>
  and \<^verbatim>\<open>div\<close> elements of the region below which there is no \<^verbatim>\<open>span.math\<close>; the fragment
  list is the math fragments followed by these.
\<close>

theorem prose_pass_keeps_math_free_blocks:
  "paragraph_loop ps acc =
     acc @ map (\<lambda>p. strip (text_of p))
             (filter (\<lambda>p. \<forall>d \<in> set (descendants p). \<not> matches [''span''] (Some ''math'') d) ps)
   \<and> statement_fragments r =
       map (\<lambda>l. ''$$ '' @ strip (text_of l) @ '' $$'') (find_all [''span''] (Some ''math'') r)
       @ map (\<lambda>p. strip (text_of p))
           (filter (\<lambda>p. \<forall>d \<in> set (descendants p). \<not> matches [''span''] (Some ''math'') d)
              (find_all [''p'', ''div''] None r))"
  by (simp add: statement_fragments_eq paragraph_loop_eq find_tag_None)

theorem prose_pass_keeps_math_free_blocks_witness:
  "find_all [''p'', ''div''] None mixed_region
     = [Element ''p'' [] [Text '' First. ''],
        Element ''p'' []
          [Text ''Let '', Element ''span'' [''math''] [Text ''n''], Text '' be given.''],
        Element ''div'' [] [Text ''Last.'']]
   \<and> statement_fragments mixed_region = [''$$ n $$'', ''First.'', ''Last.'']"
  using prose_pass_keeps_math_free_blocks [of "[]" "[]" mixed_region]
  by (simp add: mixed_region_def find_all_def class_matches_def strip_def isspace_def)

text \<open>
  C9. A region whose only content is a \<^verbatim>\<open>div\<close> holding one \<^verbatim>\<open>p\<close> with the text \<open>a\<close> yields
  the stripped text twice, once for the \<^verbatim>\<open>div\<close> and once for the \<^verbatim>\<open>p\<close> (nothing when the
  stripped text is empty); with the text \<^verbatim>\<open>A\<close> the result is \<^verbatim>\<open>A\<close>, a newline, \<^verbatim>\<open>A\<close>.
\<close>

theorem nested_prose_is_duplicated:
  "extract_problem_statement (nested_container_region a) =
     (if strip a = [] then [] else strip a @ [CHR 0x0A] @ strip a)
   \<and> extract_problem_statement (nested_container_region ''A'') = ''A'' @ [CHR 0x0A] @ ''A''"
  by (simp add: nested_container_region_def extract_problem_statement_def statement_fragments_def find_all_def find_tag_def
        class_matches_def) (simp add: strip_def isspace_def)

theorem nested_prose_is_duplicated_witness:
  "extract_problem_statement (nested_container_region '' B '') = ''B'' @ [CHR 0x0A] @ ''B''
  \<and> extract_problem_statement (nested_container_region ''  '') = []"
  using nested_prose_is_duplicated [of "'' B ''"] nested_prose_is_duplicated [of "''  ''"]
  by (simp add: strip_def isspace_def)

section \<open>Failures of an attempt\<close>

text \<open>
  C4. When the session was created, the navigation and the read of the address raise
  nothing but instances of \<^verbatim>\<open>Exception\<close>, and the statement marker does not appear within
  the 20 seconds of the wait, \<^verbatim>\<open>scrape_problem\<close> returns \<^verbatim>\<open>None\<close>, leaves every file as it
  was, and as many sessions are open afterwards as before.
\<close>

theorem timeout_returns_none:
  assumes "setup_driver b = None" and "\<And>t. marker_appears b = Some t \<Longrightarrow> 20 < t"
    and "\<And>e. get b = Some e \<Longrightarrow> is_Exception e"
    and "\<And>e. current_url b = Inl e \<Longrightarrow> is_Exception e"
  shows "fst (scrape_problem b pid w) = Returned None
     \<and> files (snd (scrape_problem b pid w)) = files w
     \<and> sessions (snd (scrape_problem b pid w)) = sessions w"
proof -
  have wt: "wait_until 20 (marker_appears b) \<noteq> None"
    using assms(2) by (auto simp: wait_until_def split: option.splits)
  from scrape_problem_cases[OF assms(1), of pid w] show ?thesis
  proof (elim disjE exE conjE)
    fix data w3 assume "try_body b pid (entered_try pid w) = (Inr data, w3)"
    from try_body_Inr[OF this] wt show ?thesis by auto
  next
    fix e w3 assume t: "try_body b pid (entered_try pid w) = (Inl e, w3)"
      and r: "scrape_problem b pid w = (Returned None, driver_quit (except_handler b pid e w3))"
    have "files w3 = files (entered_try pid w)"
      using try_body_before_parse[OF wt t] by simp
    moreover have "sessions w3 = sessions (entered_try pid w)"
      using try_body_Inl[OF t] by simp
    ultimately show ?thesis
      using r by (simp add: quit_world handler_world entered_world)
  next
    fix e w3 assume t: "try_body b pid (entered_try pid w) = (Inl e, w3)"
      and n: "\<not> is_Exception e"
    from try_body_before_parse[OF wt t]
    have "get b = Some e \<or> current_url b = Inl e \<or> e = TimeoutException" by simp
    then have "is_Exception e" using assms(3,4) by auto
    with n show ?thesis by simp
  qed
qed

theorem timeout_returns_none_witness:
  "setup_driver never_loaded = None
   \<and> marker_appears never_loaded = None
   \<and> get never_loaded = None
   \<and> current_url never_loaded = Inr ''https://codeforces.com/''
   \<and> fst (scrape_problem never_loaded ''1/A'' empty_world) = Returned None
   \<and> files (snd (scrape_problem never_loaded ''1/A'' empty_world)) = Map.empty
   \<and> sessions (snd (scrape_problem never_loaded ''1/A'' empty_world)) = 0"
  using timeout_returns_none [of never_loaded "''1/A''" empty_world]
  by (simp add: never_loaded_def serving_def empty_world_def)

text \<open>
  C2 as stated fails: the session is created before the \<^verbatim>\<open>try\<close> (line 38), so an
  exception of \<^verbatim>\<open>setup_driver\<close> reaches the caller.
\<close>

theorem setup_failure_propagates:
  "fst (scrape_problem no_driver ''1/A'' empty_world)
     = Raised (WebDriverException ''Unable to obtain driver for chrome'')
   \<and> fst (scrape_problem no_driver ''1/A'' empty_world) \<noteq> Returned None"
  by (simp add: scrape_problem_def no_driver_def serving_def)

text \<open>
  C2, as amended. An exception raised while the session is created reaches the caller.
  Once the session has been created, an exception that the body of the \<^verbatim>\<open>try\<close> raises is
  caught when it is an instance of \<^verbatim>\<open>Exception\<close>: the result is \<^verbatim>\<open>None\<close> and the console
  ends with the line naming the identifier and the exception, followed by the address when
  it can be read. An exception that is not an instance of \<^verbatim>\<open>Exception\<close> reaches the
  caller, after the session has been closed. So \<^verbatim>\<open>scrape_problem\<close> returns a record,
  returns \<^verbatim>\<open>None\<close> or raises what is not an \<^verbatim>\<open>Exception\<close>. The body raises the exception of
  a failed navigation, the timeout of the wait (an instance of \<^verbatim>\<open>Exception\<close>), and the
  exception of line 57 when the parsed page has no statement region.
\<close>

theorem exceptions_inside_try_are_caught:
  "(setup_driver b = Some e0 \<longrightarrow> fst (scrape_problem b pid w) = Raised e0)
   \<and> (setup_driver b = None \<longrightarrow>
        (fst (scrape_problem b pid w) = Returned None
         \<or> (\<exists>data. fst (scrape_problem b pid w) = Returned (Some data))
         \<or> (\<exists>x. \<not> is_Exception x \<and> fst (scrape_problem b pid w) = Raised x))
      \<and> (\<forall>e w3. try_body b pid (entered_try pid w) = (Inl e, w3) \<longrightarrow>
            (is_Exception e \<longrightarrow>
               fst (scrape_problem b pid w) = Returned None
               \<and> console (snd (scrape_problem b pid w))
                   = console w3 @ [''Error scraping problem '' @ pid @ '': '' @ str_exn e]
                     @ (case failed_url b of None \<Rightarrow> [] | Some u \<Rightarrow> [''Failed URL: '' @ u]))
          \<and> (\<not> is_Exception e \<longrightarrow>
               fst (scrape_problem b pid w) = Raised e
               \<and> sessions (snd (scrape_problem b pid w)) = sessions w)))
   \<and> (get b = Some e1 \<longrightarrow> fst (try_body b pid w1) = Inl e1)
   \<and> (get b = None \<longrightarrow> current_url b = Inr u \<longrightarrow> wait_until 20 (marker_appears b) = Some e2 \<longrightarrow>
        fst (try_body b pid w1) = Inl e2 \<and> is_Exception e2)
   \<and> (get b = None \<longrightarrow> current_url b = Inr u \<longrightarrow> wait_until 20 (marker_appears b) = None \<longrightarrow>
        page_source b = Inr soup \<longrightarrow>
        find_tag [''div''] (Some ''problem-statement'') soup = None \<longrightarrow>
        fst (try_body b pid w1) = Inl (Exception ''Could not find problem statement''))"
proof (intro conjI impI allI)
  assume "setup_driver b = Some e0"
  then show "fst (scrape_problem b pid w) = Raised e0"
    by (simp add: scrape_problem_def Let_def)
next
  assume s: "setup_driver b = None"
  show "fst (scrape_problem b pid w) = Returned None
         \<or> (\<exists>data. fst (scrape_problem b pid w) = Returned (Some data))
         \<or> (\<exists>x. \<not> is_Exception x \<and> fst (scrape_problem b pid w) = Raised x)"
    using scrape_problem_cases[OF s, of pid w] by auto
next
  fix e w3
  assume s: "setup_driver b = None"
    and t: "try_body b pid (entered_try pid w) = (Inl e, w3)" and i: "is_Exception e"
  with scrape_problem_cases[OF s, of pid w]
  have r: "scrape_problem b pid w = (Returned None, driver_quit (except_handler b pid e w3))"
    by auto
  show "fst (scrape_problem b pid w) = Returned None" by (simp add: r)
  show "console (snd (scrape_problem b pid w))
          = console w3 @ [''Error scraping problem '' @ pid @ '': '' @ str_exn e]
            @ (case failed_url b of None \<Rightarrow> [] | Some u \<Rightarrow> [''Failed URL: '' @ u])"
    by (simp add: r quit_world handler_world)
next
  fix e w3
  assume s: "setup_driver b = None"
    and t: "try_body b pid (entered_try pid w) = (Inl e, w3)" and n: "\<not> is_Exception e"
  with scrape_problem_cases[OF s, of pid w]
  have r: "scrape_problem b pid w = (Raised e, driver_quit w3)"
    by auto
  show "fst (scrape_problem b pid w) = Raised e" by (simp add: r)
  show "sessions (snd (scrape_problem b pid w)) = sessions w"
    using try_body_Inl[OF t] by (simp add: r quit_world entered_world)
next
  assume "get b = Some e1"
  then show "fst (try_body b pid w1) = Inl e1" by (simp add: try_body_def)
next
  assume a: "get b = None" "current_url b = Inr u" "wait_until 20 (marker_appears b) = Some e2"
  then show "fst (try_body b pid w1) = Inl e2" by (simp add: try_body_def)
  from a(3) have "e2 = TimeoutException"
    by (auto simp: wait_until_def split: option.splits if_splits)
  then show "is_Exception e2" by simp
next
  assume "get b = None" "current_url b = Inr u" "wait_until 20 (marker_appears b) = None"
    "page_source b = Inr soup" "find_tag [''div''] (Some ''problem-statement'') soup = None"
  then show "fst (try_body b pid w1) = Inl (Exception ''Could not find problem statement'')"
    by (simp add: try_body_def parse_page_def)
qed

theorem exceptions_inside_try_are_caught_witness:
  "setup_driver no_driver = Some (WebDriverException ''Unable to obtain driver for chrome'')
   \<and> fst (scrape_problem no_driver ''gym/1/A'' empty_world)
       = Raised (WebDriverException ''Unable to obtain driver for chrome'')
   \<and> setup_driver (serving tags_only_page) = None
   \<and> try_body (serving tags_only_page) ''1/A'' (entered_try ''1/A'' empty_world)
       = (Inl (Exception ''Could not find problem statement''),
          \<lparr>files = Map.empty,
           console = [''Accessing URL: https://codeforces.com/problemset/problem/1/A'',
                      ''Current URL: https://codeforces.com/'',
                      ''Problem statement found, extracting content...''],
           sessions = 1\<rparr>)
   \<and> is_Exception (Exception ''Could not find problem statement'')
   \<and> fst (scrape_problem (serving tags_only_page) ''1/A'' empty_world) = Returned None
   \<and> console (snd (scrape_problem (serving tags_only_page) ''1/A'' empty_world))
      = [''Accessing URL: https://codeforces.com/problemset/problem/1/A'',
         ''Current URL: https://codeforces.com/'',
         ''Problem statement found, extracting content...'',
         ''Error scraping problem 1/A: Could not find problem statement'',
         ''Failed URL: https://codeforces.com/'']
   \<and> setup_driver interrupted = None
   \<and> get interrupted = Some KeyboardInterrupt
   \<and> try_body interrupted ''1/A'' (entered_try ''1/A'' empty_world)
       = (Inl KeyboardInterrupt, entered_try ''1/A'' empty_world)
   \<and> fst (scrape_problem interrupted ''1/A'' empty_world) = Raised KeyboardInterrupt
   \<and> sessions (snd (scrape_problem interrupted ''1/A'' empty_world)) = 0
   \<and> get never_loaded = None
   \<and> current_url never_loaded = Inr ''https://codeforces.com/''
   \<and> wait_until 20 (marker_appears never_loaded) = Some TimeoutException
   \<and> fst (try_body never_loaded ''1/A'' empty_world) = Inl TimeoutException"
proof -
  have s: "setup_driver (serving tags_only_page) = None" by (simp add: serving_def)
  have t: "try_body (serving tags_only_page) ''1/A'' (entered_try ''1/A'' empty_world)
       = (Inl (Exception ''Could not find problem statement''),
          \<lparr>files = Map.empty,
           console = [''Accessing URL: https://codeforces.com/problemset/problem/1/A'',
                      ''Current URL: https://codeforces.com/'',
                      ''Problem statement found, extracting content...''],
           sessions = 1\<rparr>)"
    by (simp add: run_defs page_defs entered_try_def)
  have s': "setup_driver interrupted = None" "get interrupted = Some KeyboardInterrupt"
    by (simp_all add: interrupted_def serving_def)
  have t': "try_body interrupted ''1/A'' (entered_try ''1/A'' empty_world)
       = (Inl KeyboardInterrupt, entered_try ''1/A'' empty_world)"
    by (simp add: try_body_def s')
  have n: "get never_loaded = None" "current_url never_loaded = Inr ''https://codeforces.com/''"
    "wait_until 20 (marker_appears never_loaded) = Some TimeoutException"
    by (simp_all add: never_loaded_def serving_def wait_until_def)
  have d: "setup_driver no_driver = Some (WebDriverException ''Unable to obtain driver for chrome'')"
    by (simp add: no_driver_def serving_def)
  show ?thesis
    using exceptions_inside_try_are_caught
            [of no_driver "WebDriverException ''Unable to obtain driver for chrome''"
                "''gym/1/A''" empty_world]
          exceptions_inside_try_are_caught
            [of "serving tags_only_page" _ "''1/A''" empty_world] s t
          exceptions_inside_try_are_caught
            [of interrupted _ "''1/A''" empty_world] s' t'
          exceptions_inside_try_are_caught
            [of never_loaded _ "''1/A''" _ _ empty_world "''https://codeforces.com/''" TimeoutException] n d
    by (simp add: serving_def empty_world_def entered_try_def start_session_def print_def)
qed



section \<open>Samples, tags and file names\<close>

text \<open>
  C5. The samples are collected element by element in document order, each
  \<^verbatim>\<open>div.sample-test\<close> contributing nothing or one pair; it contributes a pair only if its
  input part, its output part and a \<^verbatim>\<open>pre\<close> in each are found, and nothing when it has no
  output part. The list stored under \<^verbatim>\<open>samples\<close> is the one collected from the
  \<^verbatim>\<open>div.sample-test\<close> elements of the statement region.
\<close>

theorem sample_pairs_need_both_parts:
  "sample_loop tests acc = acc @ concat (map (\<lambda>t. sample_loop [t] []) tests)
   \<and> (sample_loop [t] [] = []
      \<or> (\<exists>input_div output_div input_pre output_pre.
            find_tag [''div''] (Some ''input'') t = Some input_div
          \<and> find_tag [''div''] (Some ''output'') t = Some output_div
          \<and> find_tag [''pre''] None input_div = Some input_pre
          \<and> find_tag [''pre''] None output_div = Some output_pre
          \<and> sample_loop [t] [] = [PDict [(''input'', PStr (strip (text_of input_pre))),
                                         (''output'', PStr (strip (text_of output_pre)))]]))
   \<and> (find_tag [''div''] (Some ''output'') t = None \<longrightarrow> sample_loop [t] [] = [])
   \<and> (fst (scrape_problem b pid w) = Returned (Some data) \<longrightarrow>
        (\<exists>soup ps. page_source b = Inr soup
           \<and> find_tag [''div''] (Some ''problem-statement'') soup = Some ps
           \<and> map_of data ''samples''
               = Some (PList (sample_loop (find_all [''div''] (Some ''sample-test'') ps) []))))"
proof (intro conjI impI)
  show "sample_loop tests acc = acc @ concat (map (\<lambda>t. sample_loop [t] []) tests)"
    by (rule sample_loop_acc)
  show "sample_loop [t] [] = []
      \<or> (\<exists>input_div output_div input_pre output_pre.
            find_tag [''div''] (Some ''input'') t = Some input_div
          \<and> find_tag [''div''] (Some ''output'') t = Some output_div
          \<and> find_tag [''pre''] None input_div = Some input_pre
          \<and> find_tag [''pre''] None output_div = Some output_pre
          \<and> sample_loop [t] [] = [PDict [(''input'', PStr (strip (text_of input_pre))),
                                         (''output'', PStr (strip (text_of output_pre)))]])"
    by (simp split: option.splits)
next
  assume "find_tag [''div''] (Some ''output'') t = None"
  then show "sample_loop [t] [] = []" by (simp split: option.splits)
next
  assume "fst (scrape_problem b pid w) = Returned (Some data)"
  from scrape_problem_Some[OF this] show "\<exists>soup ps. page_source b = Inr soup
           \<and> find_tag [''div''] (Some ''problem-statement'') soup = Some ps
           \<and> map_of data ''samples''
               = Some (PList (sample_loop (find_all [''div''] (Some ''sample-test'') ps) []))"
    by (auto simp: record_of_lookup)
qed

theorem sample_pairs_need_both_parts_witness:
  "find_all [''div''] (Some ''sample-test'') sample_region
     = [full_sample ''1 2'' ''3'', input_only_sample, full_sample ''4 5'' ''9'']
   \<and> find_tag [''div''] (Some ''input'') input_only_sample \<noteq> None
   \<and> find_tag [''div''] (Some ''output'') input_only_sample = None
   \<and> sample_loop [input_only_sample] [] = []
   \<and> sample_loop (find_all [''div''] (Some ''sample-test'') sample_region) []
     = [PDict [(''input'', PStr ''1 2''), (''output'', PStr ''3'')],
        PDict [(''input'', PStr ''4 5''), (''output'', PStr ''9'')]]
   \<and> fst (scrape_problem (serving sample_page) ''1/A'' empty_world)
     = Returned (Some (record_of sample_page sample_region))
   \<and> map_of (record_of sample_page sample_region) ''samples''
     = Some (PList [PDict [(''input'', PStr ''1 2''), (''output'', PStr ''3'')],
                    PDict [(''input'', PStr ''4 5''), (''output'', PStr ''9'')]])"
proof -
  have r: "fst (scrape_problem (serving sample_page) ''1/A'' empty_world)
     = Returned (Some (record_of sample_page sample_region))"
    by (simp add: run_defs page_defs record_of_def header_fields_def Let_def)
  have n: "find_tag [''div''] (Some ''output'') input_only_sample = None"
    by (simp add: run_defs page_defs)
  show ?thesis
    using sample_pairs_need_both_parts [of "find_all [''div''] (Some ''sample-test'') sample_region" "[]"
            input_only_sample "serving sample_page" "''1/A''" empty_world
            "record_of sample_page sample_region"] r n
    by (simp add: serving_def) (simp add: run_defs page_defs)
qed

text \<open>
  C3 as stated fails: on a page with a tag box and no \<^verbatim>\<open>div.problem-statement\<close> the
  attempt ends at the check of line 56, before the tags are collected; it returns
  \<^verbatim>\<open>None\<close> and writes nothing.
\<close>

theorem no_region_no_tags:
  "collect_tags tags_only_page = [PStr ''math'']
   \<and> find_tag [''div''] (Some ''problem-statement'') tags_only_page = None
   \<and> fst (scrape_problem (serving tags_only_page) ''1/A'' empty_world) = Returned None
   \<and> files (snd (scrape_problem (serving tags_only_page) ''1/A'' empty_world)) = Map.empty"
  by (simp add: run_defs page_defs)

text \<open>
  C3, as amended. When \<^verbatim>\<open>scrape_problem\<close> returns a record, the list stored under
  \<^verbatim>\<open>tags\<close> holds, in document order, the stripped text of the first \<^verbatim>\<open>span.tag-box\<close> of
  every \<^verbatim>\<open>div\<close> of the whole parsed document that carries the compound class and has such
  a span. When the parsed document has no statement region, no record is returned.
\<close>

theorem tags_from_whole_document:
  "(fst (scrape_problem b pid w) = Returned (Some data) \<longrightarrow>
      (\<exists>soup ps. page_source b = Inr soup
         \<and> find_tag [''div''] (Some ''problem-statement'') soup = Some ps
         \<and> map_of data ''tags''
             = Some (PList (map (\<lambda>s. PStr (strip (text_of s)))
                 (List.map_filter (find_tag [''span''] (Some ''tag-box''))
                    (find_all [''div''] (Some ''roundbox borderTopRound borderBottomRound'') soup))))))
   \<and> (page_source b = Inr soup \<longrightarrow>
        find_tag [''div''] (Some ''problem-statement'') soup = None \<longrightarrow>
        fst (scrape_problem b pid w) \<noteq> Returned (Some data))"
proof (intro conjI impI)
  assume "fst (scrape_problem b pid w) = Returned (Some data)"
  from scrape_problem_Some[OF this]
  obtain soup ps where p: "page_source b = Inr soup"
    and f: "find_tag [''div''] (Some ''problem-statement'') soup = Some ps"
    and d: "data = record_of soup ps" by blast
  have "collect_tags soup = map (\<lambda>s. PStr (strip (text_of s)))
                 (List.map_filter (find_tag [''span''] (Some ''tag-box''))
                    (find_all [''div''] (Some ''roundbox borderTopRound borderBottomRound'') soup))"
    by (simp add: collect_tags_def Let_def tag_loop_eq List.map_filter_simps)
  then have "map_of data ''tags''
             = Some (PList (map (\<lambda>s. PStr (strip (text_of s)))
                 (List.map_filter (find_tag [''span''] (Some ''tag-box''))
                    (find_all [''div''] (Some ''roundbox borderTopRound borderBottomRound'') soup))))"
    by (simp add: d record_of_lookup)
  with p f show "\<exists>soup ps. page_source b = Inr soup
         \<and> find_tag [''div''] (Some ''problem-statement'') soup = Some ps
         \<and> map_of data ''tags''
             = Some (PList (map (\<lambda>s. PStr (strip (text_of s)))
                 (List.map_filter (find_tag [''span''] (Some ''tag-box''))
                    (find_all [''div''] (Some ''roundbox borderTopRound borderBottomRound'') soup))))"
    by blast
next
  assume p: "page_source b = Inr soup" and n: "find_tag [''div''] (Some ''problem-statement'') soup = None"
  show "fst (scrape_problem b pid w) \<noteq> Returned (Some data)"
  proof
    assume "fst (scrape_problem b pid w) = Returned (Some data)"
    from scrape_problem_Some[OF this] p n show False by auto
  qed
qed

theorem tags_from_whole_document_witness:
  "fst (scrape_problem (serving sample_page) ''1/A'' empty_world)
     = Returned (Some (record_of sample_page sample_region))
   \<and> page_source (serving sample_page) = Inr sample_page
   \<and> find_tag [''div''] (Some ''problem-statement'') sample_page = Some sample_region
   \<and> find_all [''div''] (Some ''roundbox borderTopRound borderBottomRound'') sample_region = []
   \<and> map_of (record_of sample_page sample_region) ''tags'' = Some (PList [PStr ''math''])
   \<and> page_source (serving tags_only_page) = Inr tags_only_page
   \<and> find_tag [''div''] (Some ''problem-statement'') tags_only_page = None
   \<and> fst (scrape_problem (serving tags_only_page) ''1/A'' empty_world)
       \<noteq> Returned (Some (record_of sample_page sample_region))"
proof -
  have r: "fst (scrape_problem (serving sample_page) ''1/A'' empty_world)
     = Returned (Some (record_of sample_page sample_region))"
    by (simp add: run_defs page_defs record_of_def header_fields_def Let_def)
  have p: "page_source (serving tags_only_page) = Inr tags_only_page"
    by (simp add: serving_def)
  have n: "find_tag [''div''] (Some ''problem-statement'') tags_only_page = None"
    by (simp add: run_defs page_defs)
  show ?thesis
    using tags_from_whole_document [of "serving sample_page" "''1/A''" empty_world
            "record_of sample_page sample_region" sample_page]
          tags_from_whole_document [of "serving tags_only_page" "''1/A''" empty_world
            "record_of sample_page sample_region" tags_only_page]
          r p n
    by (simp add: serving_def) (simp add: run_defs page_defs List.map_filter_simps)
qed

text \<open>
  C7. Both file names are built from one stem, the identifier with every \<^verbatim>\<open>/\<close> replaced by
  \<^verbatim>\<open>_\<close>: the stem has the length of the identifier and no \<^verbatim>\<open>/\<close>, and a successful attempt
  writes the statement and the JSON text to the two files so named.
\<close>

theorem one_stem_for_both_files:
  "text_file_path pid = ''scraped_data/problem_'' @ sanitized pid @ ''.txt''
   \<and> output_file pid = ''scraped_data/problem_'' @ sanitized pid @ ''.json''
   \<and> str_replace ''/'' ''_'' pid = sanitized pid
   \<and> CHR ''/'' \<notin> set (sanitized pid)
   \<and> length (sanitized pid) = length pid
   \<and> (fst (scrape_problem b pid w) = Returned (Some data) \<longrightarrow>
        (\<exists>st. map_of data ''statement'' = Some (PStr st)
           \<and> files (snd (scrape_problem b pid w))
                (''scraped_data/problem_'' @ sanitized pid @ ''.txt'') = Some st)
        \<and> files (snd (scrape_problem b pid w))
             (''scraped_data/problem_'' @ sanitized pid @ ''.json'') = Some (json_dumps data))"
proof (intro conjI impI)
  show "text_file_path pid = ''scraped_data/problem_'' @ sanitized pid @ ''.txt''"
    by (rule sanitized_paths)
  show "output_file pid = ''scraped_data/problem_'' @ sanitized pid @ ''.json''"
    by (rule sanitized_paths)
  show "str_replace ''/'' ''_'' pid = sanitized pid"
    by (simp add: str_replace_slash sanitized_def)
  show "CHR ''/'' \<notin> set (sanitized pid)" by (auto simp: sanitized_def)
  show "length (sanitized pid) = length pid" by (simp add: sanitized_def)
next
  assume a: "fst (scrape_problem b pid w) = Returned (Some data)"
  from scrape_problem_Some[OF a] obtain soup ps where d: "data = record_of soup ps"
    and f: "files (snd (scrape_problem b pid w))
         = (files w)(text_file_path pid \<mapsto> extract_problem_statement ps,
                      output_file pid \<mapsto> json_dumps data)" by blast
  have t: "files (snd (scrape_problem b pid w)) (text_file_path pid) = Some (extract_problem_statement ps)"
    using paths_differ[of pid] by (simp add: f)
  show "\<exists>st. map_of data ''statement'' = Some (PStr st)
           \<and> files (snd (scrape_problem b pid w))
                (''scraped_data/problem_'' @ sanitized pid @ ''.txt'') = Some st"
    using t by (simp only: sanitized_paths[symmetric] d record_of_lookup) simp
  show "files (snd (scrape_problem b pid w))
             (''scraped_data/problem_'' @ sanitized pid @ ''.json'') = Some (json_dumps data)"
    by (simp only: sanitized_paths[symmetric] f) simp
qed

theorem one_stem_for_both_files_witness:
  "text_file_path ''1/A'' = ''scraped_data/problem_1_A.txt''
   \<and> output_file ''1/A'' = ''scraped_data/problem_1_A.json''
   \<and> text_file_path ''gym/100/B'' = ''scraped_data/problem_gym_100_B.txt''
   \<and> fst (scrape_problem (serving sample_page) ''1/A'' empty_world)
     = Returned (Some (record_of sample_page sample_region))
   \<and> files (snd (scrape_problem (serving sample_page) ''1/A'' empty_world))
        ''scraped_data/problem_1_A.json'' = Some (json_dumps (record_of sample_page sample_region))
   \<and> files (snd (scrape_problem (serving sample_page) ''1/A'' empty_world))
        ''scraped_data/problem_1_A.txt'' \<noteq> None"
proof -
  have r: "fst (scrape_problem (serving sample_page) ''1/A'' empty_world)
     = Returned (Some (record_of sample_page sample_region))"
    by (simp add: run_defs page_defs record_of_def header_fields_def Let_def)
  show ?thesis
    using one_stem_for_both_files [of "''1/A''" "serving sample_page" empty_world
            "record_of sample_page sample_region"]
          one_stem_for_both_files [of "''gym/100/B''"] r
    by (auto simp add: sanitized_def)
qed

section \<open>The JSON file\<close>

text \<open>
  C8. When \<^verbatim>\<open>scrape_problem\<close> returns a record, the JSON file holds its serialization, and
  reading that text back gives a dict equal to the record: the same keys in the same
  order, the same values, the samples and the tags in the same order.
\<close>

theorem json_round_trip:
  assumes "fst (scrape_problem b pid w) = Returned (Some data)"
  shows "files (snd (scrape_problem b pid w)) (output_file pid) = Some (json_dumps data)
     \<and> json_loads (json_dumps data) = Some (PDict data)"
proof -
  from scrape_problem_Some[OF assms] obtain soup ps where d: "data = record_of soup ps"
    and f: "files (snd (scrape_problem b pid w))
         = (files w)(text_file_path pid \<mapsto> extract_problem_statement ps,
                      output_file pid \<mapsto> json_dumps data)" by blast
  have "json_loads (json_dumps data) = Some (PDict data)"
    unfolding d by (rule json_loads_dumps[OF distinct_keys_record])
  then show ?thesis by (simp add: f)
qed

theorem json_round_trip_witness:
  "fst (scrape_problem (serving sample_page) ''1/A'' empty_world)
     = Returned (Some (record_of sample_page sample_region))
   \<and> record_of sample_page sample_region
     = [(''title'', PStr ''A. Sum''),
        (''statement'', PStr (extract_problem_statement sample_region)),
        (''samples'',
         PList [PDict [(''input'', PStr ''1 2''), (''output'', PStr ''3'')],
                PDict [(''input'', PStr ''4 5''), (''output'', PStr ''9'')]]),
        (''tags'', PList [PStr ''math''])]
   \<and> files (snd (scrape_problem (serving sample_page) ''1/A'' empty_world))
        ''scraped_data/problem_1_A.json''
     = Some (json_dumps (record_of sample_page sample_region))
   \<and> json_loads (json_dumps (record_of sample_page sample_region))
     = Some (PDict (record_of sample_page sample_region))"
proof -
  have r: "fst (scrape_problem (serving sample_page) ''1/A'' empty_world)
     = Returned (Some (record_of sample_page sample_region))"
    by (simp add: run_defs page_defs record_of_def header_fields_def Let_def)
  have p: "output_file ''1/A'' = ''scraped_data/problem_1_A.json''"
    by (simp add: sanitized_paths sanitized_def)
  have v: "record_of sample_page sample_region
     = [(''title'', PStr ''A. Sum''),
        (''statement'', PStr (extract_problem_statement sample_region)),
        (''samples'',
         PList [PDict [(''input'', PStr ''1 2''), (''output'', PStr ''3'')],
                PDict [(''input'', PStr ''4 5''), (''output'', PStr ''9'')]]),
        (''tags'', PList [PStr ''math''])]"
    by (simp add: record_of_def header_fields_def) (simp add: run_defs page_defs)
  show ?thesis
    using json_round_trip [OF r] r v by (simp only: p)
qed

end
